theory Spec2Isabelle
  imports Main "HOL-Library.Sublist" "HOL-Library.AList"
begin

text \<open>
  A shallow embedding of \<^verbatim>\<open>src/clone-node.ts\<close>, the recursive cloning of a rendered
  document subtree into a detached tree. Nodes are trees of values; a promise is the
  value it settles with, together with the invocations of \<open>cloneNode\<close> that it started;
  the collaborators and the platform are parameters gathered in an environment.
\<close>

section \<open>The document object model that clone-node.ts reads and builds\<close>

text \<open>
  The classes that the source tells apart with \<^verbatim>\<open>isInstanceOfElement\<close>.
  \<open>Element\<close> stands for every element of no more specific class listed here,
  \<open>CharacterData\<close> for the nodes that are no elements (text, comments).
\<close>

datatype nodeClass =
    HTMLCanvasElement
  | HTMLVideoElement
  | HTMLIFrameElement
  | HTMLTextAreaElement
  | HTMLInputElement
  | HTMLSelectElement
  | HTMLImageElement
  | Element
  | CharacterData

text \<open>
  The failures of the model: the platform's exceptions that the source can meet
  and the rejection of the resource collaborator.
\<close>

datatype error =
    SecurityError
  | SyntaxError string
  | TypeError string
  | ResourceError string

text \<open>A style declaration: property name, value, priority.\<close>

type_synonym styleDecl = "string \<times> string \<times> string"

text \<open>
  What a node holds by itself. \<open>tagName\<close> is absent on character data and holds
  the qualified name otherwise (its only reader, \<open>isSlotElement\<close>, upper-cases it).
  \<open>style\<close> is the inline style, absent where the node has no style surface.
  \<open>currentValue\<close> is the live \<^verbatim>\<open>value\<close> of a form control, \<open>toDataURL\<close> what
  \<^verbatim>\<open>canvas.toDataURL()\<close> does now: it returns the serialization, or it throws (a
  canvas tainted by data of another origin).
\<close>

record props =
  nodeClass :: nodeClass
  tagName :: "string option"
  namespaceURI :: string
  attributes :: "(string \<times> string) list"
  style :: "styleDecl list option"
  nodeValue :: string
  currentValue :: string
  toDataURL :: "error + string"
  currentSrc :: string
  poster :: string
  clientWidth :: nat
  clientHeight :: nat

text \<open>
  What reading \<^verbatim>\<open>iframe.contentDocument\<close> and then \<^verbatim>\<open>.body\<close> gives: the access
  throws, the document is null, the document has no body, or there is a body.
\<close>

datatype 'n contentDoc = AccessThrows | NoDocument | NoBody | Body 'n

text \<open>
  A node: its own properties, its child nodes, the child nodes of its shadow root
  when one is attached, the nodes assigned to it when it exposes
  \<^verbatim>\<open>assignedNodes\<close>, and its nested document.
\<close>

datatype node = Node
  (props: props)
  (childNodes: "node list")
  (shadowRoot: "node list option")
  (assignedNodes: "node list option")
  (contentDocument: "node contentDoc")

text \<open>
  The \<^verbatim>\<open>Options\<close> of types.ts: the optional exclusion predicate and the
  configuration that is only handed on to the collaborators.
\<close>

record options =
  filterOpt :: "(node \<Rightarrow> bool) option"
  passThrough :: "(string \<times> string) list"

text \<open>The object literal \<^verbatim>\<open>{}\<close>.\<close>

definition emptyOptions :: options where
  "emptyOptions = \<lparr>filterOpt = None, passThrough = []\<rparr>"

text \<open>The computed style of a node, as \<^verbatim>\<open>window.getComputedStyle\<close> returns it.\<close>

record computedStyle =
  cssText :: string
  transformOrigin :: string
  declarations :: "styleDecl list"

text \<open>
  The collaborators and the platform services that are not part of clone-node.ts,
  taken as parameters: MIME sniffing, resource conversion, the pseudo-element
  transfer, style computation, the CSS and HTML parsers, the selector engine, the
  serialization of the frame a video shows (drawn on a fresh canvas of the given size,
  whose \<^verbatim>\<open>toDataURL()\<close> throws for a video of another origin), the live
  document, the number rendering of the font-size rewrite, and the order in which the
  child promises of a node settle.
\<close>

record env =
  getMimeType :: "string \<Rightarrow> string"
  resourceToDataURL :: "string \<Rightarrow> string \<Rightarrow> options \<Rightarrow> error + string"
  clonePseudoElements :: "node \<Rightarrow> node \<Rightarrow> node"
  getComputedStyle :: "node \<Rightarrow> computedStyle"
  parseCssText :: "string \<Rightarrow> styleDecl list"
  parseInnerHTML :: "string \<Rightarrow> node list"
  validSelector :: "string \<Rightarrow> bool"
  matchesSelector :: "string \<Rightarrow> node \<Rightarrow> bool"
  drawVideoFrame :: "node \<Rightarrow> nat \<Rightarrow> nat \<Rightarrow> error + string"
  document :: node
  reducedFontSize :: "string \<Rightarrow> string"
  settleOrder :: "node \<Rightarrow> nat list"

section \<open>Promises\<close>

text \<open>
  One invocation of \<open>cloneNode\<close>: the node, the options and the root flag it got.
\<close>

type_synonym call = "node \<times> options \<times> bool"

text \<open>
  An asynchronous computation: the \<open>cloneNode\<close> invocations it started, and how it
  settled: \<open>None\<close> when it never settles, \<open>Some (Inl e)\<close> when it rejects,
  \<open>Some (Inr v)\<close> when it resolves.
\<close>

type_synonym 'a promise = "call list \<times> (error + 'a) option"

definition resolve :: "'a \<Rightarrow> 'a promise" where
  "resolve v = ([], Some (Inr v))"

definition reject :: "error \<Rightarrow> 'a promise" where
  "reject e = ([], Some (Inl e))"

text \<open>\<^verbatim>\<open>p.then(f)\<close>, and \<^verbatim>\<open>f(await p)\<close> outside any try block.\<close>

definition andThen :: "'a promise \<Rightarrow> ('a \<Rightarrow> 'b promise) \<Rightarrow> 'b promise" where
  "andThen p f =
     (case snd p of
        None \<Rightarrow> (fst p, None)
      | Some (Inl e) \<Rightarrow> (fst p, Some (Inl e))
      | Some (Inr v) \<Rightarrow> (fst p @ fst (f v), snd (f v)))"

text \<open>A synchronous step that throws or returns.\<close>

definition attempt :: "error + 'a \<Rightarrow> 'a promise" where
  "attempt r = ([], Some r)"

text \<open>
  The first rejection among the promises, met in the order in which they settle.
\<close>

fun firstRejection :: "nat list \<Rightarrow> (error + 'a) option list \<Rightarrow> error option" where
  "firstRejection [] rs = None"
| "firstRejection (i # order) rs =
     (if i < length rs then
        (case rs ! i of
           Some (Inl e) \<Rightarrow> Some e
         | _ \<Rightarrow> firstRejection order rs)
      else firstRejection order rs)"

definition resolvedValue :: "(error + 'a) option \<Rightarrow> 'a option" where
  "resolvedValue r = (case r of Some (Inr v) \<Rightarrow> Some v | _ \<Rightarrow> None)"

text \<open>
  \<^verbatim>\<open>Promise.all\<close>. Every promise has been started. The promises settle in the
  given order, those the order does not name after the others, by index. The first
  rejection rejects the whole; when all have resolved the result is the list of their
  values by index; otherwise the whole never settles.
\<close>

definition promiseAll :: "nat list \<Rightarrow> 'a promise list \<Rightarrow> 'a list promise" where
  "promiseAll order ps =
     (let rs = map snd ps in
      (concat (map fst ps),
       (case firstRejection (order @ [0..<length rs]) rs of
          Some e \<Rightarrow> Some (Inl e)
        | None \<Rightarrow>
            if list_all (\<lambda>r. resolvedValue r \<noteq> None) rs
            then Some (Inr (map (\<lambda>r. the (resolvedValue r)) rs))
            else None)))"

section \<open>Platform operations on nodes\<close>

definition isInstanceOfElement :: "node \<Rightarrow> nodeClass \<Rightarrow> bool" where
  "isInstanceOfElement node c =
     (nodeClass (props node) = c \<or> (c = Element \<and> nodeClass (props node) \<noteq> CharacterData))"

text \<open>
  \<^verbatim>\<open>node.cloneNode(false)\<close>: the node itself without children; the copy is
  detached, so it has no shadow root, no assigned nodes and no nested document.
\<close>

definition shallowClone :: "node \<Rightarrow> node" where
  "shallowClone node =
     Node (props node) [] None (map_option (\<lambda>_. []) (assignedNodes node)) NoDocument"

definition getAttribute :: "node \<Rightarrow> string \<Rightarrow> string option" where
  "getAttribute node name = map_of (attributes (props node)) name"

definition setAttribute :: "node \<Rightarrow> string \<Rightarrow> string \<Rightarrow> node" where
  "setAttribute node name v =
     Node ((props node)\<lparr>attributes := AList.update name v (attributes (props node))\<rparr>)
       (childNodes node) (shadowRoot node) (assignedNodes node) (contentDocument node)"

definition setChildNodes :: "node \<Rightarrow> node list \<Rightarrow> node" where
  "setChildNodes node cs =
     Node (props node) cs (shadowRoot node) (assignedNodes node) (contentDocument node)"

text \<open>\<^verbatim>\<open>parent.append(child)\<close> and \<^verbatim>\<open>parent.appendChild(child)\<close> for a fresh child.\<close>

definition appendChild :: "node \<Rightarrow> node \<Rightarrow> node" where
  "appendChild parent child = setChildNodes parent (childNodes parent @ [child])"

text \<open>
  \<^verbatim>\<open>style.setProperty(name, value, priority)\<close> on an inline style; an empty value
  removes the property.
\<close>

definition setProperty :: "styleDecl list \<Rightarrow> string \<Rightarrow> string \<Rightarrow> string \<Rightarrow> styleDecl list" where
  "setProperty decls name v priority =
     (if v = [] then AList.delete name decls else AList.update name (v, priority) decls)"

definition setStyle :: "node \<Rightarrow> styleDecl list \<Rightarrow> node" where
  "setStyle node decls =
     Node ((props node)\<lparr>style := Some decls\<rparr>)
       (childNodes node) (shadowRoot node) (assignedNodes node) (contentDocument node)"

text \<open>\<^verbatim>\<open>document.createElementNS(ns, name)\<close>: an empty element with an empty inline style.\<close>

definition createElementNS :: "string \<Rightarrow> string \<Rightarrow> node" where
  "createElementNS ns name =
     Node \<lparr>nodeClass = Element, tagName = Some name, namespaceURI = ns, attributes = [],
           style = Some [], nodeValue = [], currentValue = [], toDataURL = Inr [],
           currentSrc = [], poster = [], clientWidth = 0, clientHeight = 0\<rparr>
       [] None None NoDocument"

text \<open>
  Modelled from the spec: \<^verbatim>\<open>createImage\<close> of util.ts, which is not among the sources.
  The image-construction collaborator \<^verbatim>\<open>(dataUrl: string) -> Promise<ImageNode>\<close>:
  an image node showing the given data.
\<close>

definition createImage :: "string \<Rightarrow> node promise" where
  "createImage dataURL =
     resolve (Node \<lparr>nodeClass = HTMLImageElement, tagName = Some ''IMG'',
                    namespaceURI = ''http://www.w3.org/1999/xhtml'',
                    attributes = [(''src'', dataURL)],
                    style = Some [], nodeValue = [], currentValue = [], toDataURL = Inr [],
                    currentSrc = dataURL, poster = [], clientWidth = 0, clientHeight = 0\<rparr>
                [] None None NoDocument)"

text \<open>The descendants of a node in document order, the node itself excluded.\<close>

fun descendants :: "node \<Rightarrow> node list" where
  "descendants (Node p cs sr an cd) = concat (map (\<lambda>c. c # descendants c) cs)"

text \<open>
  \<^verbatim>\<open>root.querySelectorAll(selector)\<close> for a selector known to be valid, and
  \<^verbatim>\<open>root.querySelector(selector)\<close>, which throws on an invalid selector.
\<close>

definition querySelectorAll :: "env \<Rightarrow> node \<Rightarrow> string \<Rightarrow> node list" where
  "querySelectorAll env root selector = filter (matchesSelector env selector) (descendants root)"

definition querySelector :: "env \<Rightarrow> node \<Rightarrow> string \<Rightarrow> error + node option" where
  "querySelector env root selector =
     (if validSelector env selector
      then Inr (find (matchesSelector env selector) (descendants root))
      else Inl (SyntaxError selector))"

text \<open>\<^verbatim>\<open>s.toUpperCase()\<close> on the letters a to z.\<close>

definition toUpperCase :: "string \<Rightarrow> string" where
  "toUpperCase s =
     map (\<lambda>c. case map_of (zip ''abcdefghijklmnopqrstuvwxyz'' ''ABCDEFGHIJKLMNOPQRSTUVWXYZ'') c of
                 Some u \<Rightarrow> u
               | None \<Rightarrow> c) s"

section \<open>clone-node.ts\<close>

text \<open>
  \<open>cloneNode\<close> is recursive through \<open>cloneIFrameElement\<close>, \<open>cloneChildren\<close> and
  \<open>ensureSVGSymbols\<close>. Each of them takes the recursive \<open>cloneNode\<close> as its first
  argument \<open>rec\<close>.
\<close>

type_synonym cloner = "node \<Rightarrow> options \<Rightarrow> bool \<Rightarrow> node option promise"

text \<open>
  \<^verbatim>\<open>canvas.toDataURL()\<close> is called outside of any try block: what it throws rejects
  the promise of the function. The same holds of the canvas that \<open>cloneVideoElement\<close>
  draws the current frame on.
\<close>

definition cloneCanvasElement :: "node \<Rightarrow> node promise" where
  "cloneCanvasElement canvas =
     andThen (attempt (toDataURL (props canvas))) (\<lambda>dataURL.
       if dataURL = ''data:,'' then resolve (shallowClone canvas)
       else createImage dataURL)"

definition cloneVideoElement :: "env \<Rightarrow> node \<Rightarrow> options \<Rightarrow> node promise" where
  "cloneVideoElement env video options =
     (if currentSrc (props video) \<noteq> [] then
        andThen (attempt (drawVideoFrame env video (clientWidth (props video)) (clientHeight (props video))))
          createImage
      else
        (let poster = poster (props video);
             contentType = getMimeType env poster
         in andThen (attempt (resourceToDataURL env poster contentType options)) createImage))"

text \<open>
  The try block catches what reading the nested document throws and what the awaited
  clone of the body rejects with. A root call of \<open>cloneNode\<close> never resolves to null
  (lemma \<open>cloneNode_root_not_null\<close>); a null would fail at its first use.
\<close>

definition cloneIFrameElement :: "cloner \<Rightarrow> node \<Rightarrow> node promise" where
  "cloneIFrameElement rec iframe =
     (case contentDocument iframe of
        Body body \<Rightarrow>
          (let p = rec body emptyOptions True in
           case snd p of
             None \<Rightarrow> (fst p, None)
           | Some (Inl e) \<Rightarrow> (fst p, Some (Inr (shallowClone iframe)))
           | Some (Inr (Some clone)) \<Rightarrow> (fst p, Some (Inr clone))
           | Some (Inr None) \<Rightarrow> (fst p, Some (Inl (TypeError ''null''))))
      | _ \<Rightarrow> resolve (shallowClone iframe))"

definition cloneSingleNode :: "cloner \<Rightarrow> env \<Rightarrow> node \<Rightarrow> options \<Rightarrow> node promise" where
  "cloneSingleNode rec env node options =
     (if isInstanceOfElement node HTMLCanvasElement then cloneCanvasElement node
      else if isInstanceOfElement node HTMLVideoElement then cloneVideoElement env node options
      else if isInstanceOfElement node HTMLIFrameElement then cloneIFrameElement rec node
      else resolve (shallowClone node))"

definition isSlotElement :: "node \<Rightarrow> bool" where
  "isSlotElement node =
     (case tagName (props node) of
        None \<Rightarrow> False
      | Some t \<Rightarrow> toUpperCase t = ''SLOT'')"

text \<open>
  The child list that \<open>cloneChildren\<close> resolves first. Reading the nested document of
  an iframe is outside any try block here.
\<close>

definition resolvedChildren :: "node \<Rightarrow> error + node list" where
  "resolvedChildren nativeNode =
     (let own = (case shadowRoot nativeNode of Some cs \<Rightarrow> cs | None \<Rightarrow> childNodes nativeNode) in
      if isSlotElement nativeNode \<and> assignedNodes nativeNode \<noteq> None then
        Inr (case assignedNodes nativeNode of Some ns \<Rightarrow> ns | None \<Rightarrow> [])
      else if isInstanceOfElement nativeNode HTMLIFrameElement then
        (case contentDocument nativeNode of
           AccessThrows \<Rightarrow> Inl SecurityError
         | Body body \<Rightarrow> Inr (childNodes body)
         | _ \<Rightarrow> Inr own)
      else Inr own)"

text \<open>
  The loop that appends the cloned children. Only elements have \<^verbatim>\<open>append\<close>.
\<close>

fun appendAll :: "node \<Rightarrow> node option list \<Rightarrow> node promise" where
  "appendAll clonedNode [] = resolve clonedNode"
| "appendAll clonedNode (None # clonedChildren) = appendAll clonedNode clonedChildren"
| "appendAll clonedNode (Some clonedChild # clonedChildren) =
     (if isInstanceOfElement clonedNode Element
      then appendAll (appendChild clonedNode clonedChild) clonedChildren
      else reject (TypeError ''append''))"

definition cloneChildren :: "cloner \<Rightarrow> env \<Rightarrow> node \<Rightarrow> node \<Rightarrow> options \<Rightarrow> node promise" where
  "cloneChildren rec env nativeNode clonedNode options =
     andThen (attempt (resolvedChildren nativeNode)) (\<lambda>children.
       if children = [] \<or> isInstanceOfElement nativeNode HTMLVideoElement then resolve clonedNode
       else
         andThen (promiseAll (settleOrder env nativeNode)
                    (map (\<lambda>child. rec child options False) children))
           (\<lambda>clonedChildren. appendAll clonedNode clonedChildren))"

definition getPropertyValue :: "computedStyle \<Rightarrow> string \<Rightarrow> string" where
  "getPropertyValue cs name = (case map_of (declarations cs) name of Some (v, p) \<Rightarrow> v | None \<Rightarrow> [])"

definition getPropertyPriority :: "computedStyle \<Rightarrow> string \<Rightarrow> string" where
  "getPropertyPriority cs name = (case map_of (declarations cs) name of Some (v, p) \<Rightarrow> p | None \<Rightarrow> [])"

definition endsWith :: "string \<Rightarrow> string \<Rightarrow> bool" where
  "endsWith s ending = (length ending \<le> length s \<and> drop (length s - length ending) s = ending)"

text \<open>
  The switch in the loop of \<open>cloneCSSStyle\<close>. \<open>reducedFontSize\<close> renders
  \<^verbatim>\<open>Math.floor(Number.parseFloat(s)) - 0.1\<close> as text.
\<close>

definition rewriteValue :: "env \<Rightarrow> node \<Rightarrow> node \<Rightarrow> string \<Rightarrow> string \<Rightarrow> string" where
  "rewriteValue env nativeNode clonedNode name v =
     (if name = ''font-size'' then
        (if endsWith v ''px'' then reducedFontSize env (take (length v - 2) v) @ ''px'' else v)
      else if name = ''display'' then
        (if v = ''inline'' \<and> isInstanceOfElement nativeNode HTMLIFrameElement then ''block'' else v)
      else if name = ''d'' then
        (case getAttribute clonedNode ''d'' of
           Some attribute \<Rightarrow> if attribute \<noteq> [] then ''path('' @ attribute @ '')'' else v
         | None \<Rightarrow> v)
      else v)"

definition cloneCSSStyle :: "env \<Rightarrow> node \<Rightarrow> node \<Rightarrow> node" where
  "cloneCSSStyle env nativeNode clonedNode =
     (case style (props clonedNode) of
        None \<Rightarrow> clonedNode
      | Some targetStyle \<Rightarrow>
          (let sourceStyle = getComputedStyle env nativeNode in
           if cssText sourceStyle \<noteq> [] then
             setStyle clonedNode
               (setProperty (parseCssText env (cssText sourceStyle))
                  ''transform-origin'' (transformOrigin sourceStyle) [])
           else
             setStyle clonedNode
               (foldl (\<lambda>target name.
                         setProperty target name
                           (rewriteValue env nativeNode clonedNode name (getPropertyValue sourceStyle name))
                           (getPropertyPriority sourceStyle name))
                  targetStyle (map fst (declarations sourceStyle)))))"

definition cloneInputValue :: "env \<Rightarrow> node \<Rightarrow> node \<Rightarrow> node" where
  "cloneInputValue env nativeNode clonedNode =
     (let clonedNode1 =
            (if isInstanceOfElement nativeNode HTMLTextAreaElement
             then setChildNodes clonedNode (parseInnerHTML env (currentValue (props nativeNode)))
             else clonedNode)
      in if isInstanceOfElement nativeNode HTMLInputElement
         then setAttribute clonedNode1 ''value'' (currentValue (props nativeNode))
         else clonedNode1)"

text \<open>Changes the first element of the list that satisfies the test, in place.\<close>

fun updateFirst :: "('a \<Rightarrow> bool) \<Rightarrow> ('a \<Rightarrow> 'a) \<Rightarrow> 'a list \<Rightarrow> 'a list" where
  "updateFirst P f [] = []"
| "updateFirst P f (x # xs) = (if P x then f x # xs else x # updateFirst P f xs)"

text \<open>
  \<^verbatim>\<open>clonedSelect.children\<close> are the element children; \<^verbatim>\<open>find\<close> takes the first
  whose \<^verbatim>\<open>value\<close> attribute is the value of the source; that child gets the attribute.
\<close>

definition isSelectedOption :: "node \<Rightarrow> node \<Rightarrow> bool" where
  "isSelectedOption nativeNode child =
     (isInstanceOfElement child Element
      \<and> getAttribute child ''value'' = Some (currentValue (props nativeNode)))"

definition cloneSelectValue :: "node \<Rightarrow> node \<Rightarrow> node" where
  "cloneSelectValue nativeNode clonedNode =
     (if isInstanceOfElement nativeNode HTMLSelectElement then
        (case find (isSelectedOption nativeNode) (childNodes clonedNode) of
           Some selectedOption \<Rightarrow>
             setChildNodes clonedNode
               (updateFirst (isSelectedOption nativeNode)
                  (\<lambda>selectedOption. setAttribute selectedOption ''selected'' [])
                  (childNodes clonedNode))
         | None \<Rightarrow> clonedNode)
      else clonedNode)"

definition decorate :: "env \<Rightarrow> node \<Rightarrow> node \<Rightarrow> node" where
  "decorate env nativeNode clonedNode =
     (if isInstanceOfElement clonedNode Element then
        cloneSelectValue nativeNode
          (cloneInputValue env nativeNode
             (clonePseudoElements env nativeNode
                (cloneCSSStyle env nativeNode clonedNode)))
      else clonedNode)"

text \<open>
  \<open>processedDefs\<close> is an object used as a dictionary: the association list of its own
  properties in insertion order. A read \<^verbatim>\<open>processedDefs[id]\<close> of a name that is no
  own property falls through to \<^verbatim>\<open>Object.prototype\<close>, whose properties are truthy.
\<close>

definition objectPrototypeKeys :: "string list" where
  "objectPrototypeKeys =
     [''constructor'', ''hasOwnProperty'', ''isPrototypeOf'', ''propertyIsEnumerable'',
      ''toLocaleString'', ''toString'', ''valueOf'', ''__proto__'',
      ''__defineGetter__'', ''__defineSetter__'', ''__lookupGetter__'', ''__lookupSetter__'']"

definition truthyDef :: "(string \<times> node option) list \<Rightarrow> string \<Rightarrow> bool" where
  "truthyDef processedDefs id' =
     (case map_of processedDefs id' of
        Some (Some n) \<Rightarrow> True
      | Some None \<Rightarrow> False
      | None \<Rightarrow> id' \<in> set objectPrototypeKeys)"

text \<open>
  The first loop of \<open>ensureSVGSymbols\<close>, over the remaining \<^verbatim>\<open>use\<close> elements.
  Both \<^verbatim>\<open>querySelector\<close> calls throw on an invalid selector; the clone of the
  definition is awaited before the next element is looked at.
\<close>

fun collectDefs ::
  "cloner \<Rightarrow> env \<Rightarrow> node \<Rightarrow> options \<Rightarrow> node list \<Rightarrow> (string \<times> node option) list
     \<Rightarrow> (string \<times> node option) list promise" where
  "collectDefs rec env clone options [] processedDefs = resolve processedDefs"
| "collectDefs rec env clone options (use # uses) processedDefs =
     (case getAttribute use ''xlink:href'' of
        None \<Rightarrow> collectDefs rec env clone options uses processedDefs
      | Some id' \<Rightarrow>
          if id' = [] then collectDefs rec env clone options uses processedDefs
          else
            andThen (attempt (querySelector env clone id')) (\<lambda>exist.
            andThen (attempt (querySelector env (document env) id')) (\<lambda>definition'.
              case definition' of
                Some d \<Rightarrow>
                  if exist = None \<and> \<not> truthyDef processedDefs id' then
                    andThen (rec d options True) (\<lambda>c.
                      collectDefs rec env clone options uses (AList.update id' c processedDefs))
                  else collectDefs rec env clone options uses processedDefs
              | None \<Rightarrow> collectDefs rec env clone options uses processedDefs)))"

text \<open>
  The hidden container of \<open>ensureSVGSymbols\<close>: the \<^verbatim>\<open>svg\<close> element with its
  attribute and inline style, holding the \<^verbatim>\<open>defs\<close> element with the given nodes.
\<close>

definition symbolNamespace :: string where
  "symbolNamespace = ''http://www.w3.org/1999/xhtml''"

text \<open>An assignment \<^verbatim>\<open>node.style.name = v\<close> on a node that has a style surface.\<close>

definition assignStyle :: "node \<Rightarrow> string \<Rightarrow> string \<Rightarrow> node" where
  "assignStyle node name v =
     (case style (props node) of
        Some decls \<Rightarrow> setStyle node (setProperty decls name v [])
      | None \<Rightarrow> node)"

definition symbolContainer :: "node list \<Rightarrow> node" where
  "symbolContainer nodes =
     (let ns = symbolNamespace;
          svg0 = createElementNS ns ''svg'';
          svg1 = setAttribute svg0 ''xmlns'' ns;
          svg2 = assignStyle svg1 ''position'' ''absolute'';
          svg3 = assignStyle svg2 ''width'' ''0'';
          svg4 = assignStyle svg3 ''height'' ''0'';
          svg5 = assignStyle svg4 ''overflow'' ''hidden'';
          svg6 = assignStyle svg5 ''display'' ''none'';
          defs0 = createElementNS ns ''defs'';
          defs1 = foldl appendChild defs0 nodes
      in appendChild svg6 defs1)"

text \<open>
  The first statement of \<open>ensureSVGSymbols\<close>: only elements have
  \<^verbatim>\<open>querySelectorAll\<close>.
\<close>

definition useElements :: "env \<Rightarrow> node \<Rightarrow> node list" where
  "useElements env clone =
     (if isInstanceOfElement clone Element then querySelectorAll env clone ''use'' else [])"

text \<open>
  \<^verbatim>\<open>appendChild\<close> of a null value throws, so a null among the collected values
  rejects the whole.
\<close>

definition ensureSVGSymbols :: "cloner \<Rightarrow> env \<Rightarrow> node \<Rightarrow> options \<Rightarrow> node promise" where
  "ensureSVGSymbols rec env clone options =
     (let uses = useElements env clone
      in if uses = [] then resolve clone
         else
           andThen (collectDefs rec env clone options uses []) (\<lambda>processedDefs.
             let nodes = map snd processedDefs in
             if nodes \<noteq> [] then
               (if None \<in> set nodes then reject (TypeError ''appendChild'')
                else resolve (appendChild clone (symbolContainer (map the nodes))))
             else resolve clone))"

text \<open>
  The exclusion test at the head of \<open>cloneNode\<close>.
\<close>

definition excluded :: "node \<Rightarrow> options \<Rightarrow> bool \<Rightarrow> bool" where
  "excluded node options isRoot =
     (\<not> isRoot \<and> (case filterOpt options of Some f \<Rightarrow> \<not> f node | None \<Rightarrow> False))"

text \<open>
  \<open>cloneNode\<close> with a bound on the depth of its recursion: with no fuel left the
  invocation has started and has not settled. Every invocation is recorded first.
\<close>

primrec cloneNode :: "nat \<Rightarrow> env \<Rightarrow> node \<Rightarrow> options \<Rightarrow> bool \<Rightarrow> node option promise" where
  "cloneNode 0 env node options isRoot = ([(node, options, isRoot)], None)"
| "cloneNode (Suc fuel) env node options isRoot =
     (if excluded node options isRoot then ([(node, options, isRoot)], Some (Inr None))
      else
        andThen
          (andThen
             (andThen
                (andThen ([(node, options, isRoot)], Some (Inr node))
                   (\<lambda>clonedNode. cloneSingleNode (cloneNode fuel env) env clonedNode options))
                (\<lambda>clonedNode. cloneChildren (cloneNode fuel env) env node clonedNode options))
             (\<lambda>clonedNode. ensureSVGSymbols (cloneNode fuel env) env (decorate env node clonedNode) options))
          (\<lambda>clonedNode. resolve (Some clonedNode)))"

section \<open>Notions used in the statements\<close>

text \<open>The body of the nested document that \<open>cloneIFrameElement\<close> clones, if any.\<close>

definition nestedBody :: "node \<Rightarrow> node option" where
  "nestedBody node =
     (if isInstanceOfElement node HTMLIFrameElement
      then (case contentDocument node of Body body \<Rightarrow> Some body | _ \<Rightarrow> None)
      else None)"

text \<open>
  A cloner that does nothing but record how it is invoked: with it in the place of the
  recursive \<open>cloneNode\<close>, the record of a step lists the calls that the step makes.
\<close>

definition recordingCloner :: cloner where
  "recordingCloner node options isRoot = ([(node, options, isRoot)], Some (Inr (Some node)))"

text \<open>The options and the node of a recorded invocation.\<close>

definition callOptions :: "call \<Rightarrow> options" where
  "callOptions c = fst (snd c)"

definition callNode :: "call \<Rightarrow> node" where
  "callNode c = fst c"

text \<open>The node and the root flag of each recorded invocation.\<close>

definition callTargets :: "call list \<Rightarrow> (node \<times> bool) list" where
  "callTargets calls = map (\<lambda>(node, options, isRoot). (node, isRoot)) calls"

text \<open>The reference of a \<^verbatim>\<open>use\<close> element when it is truthy.\<close>

definition useReference :: "node \<Rightarrow> string option" where
  "useReference use =
     (case getAttribute use ''xlink:href'' of
        Some id' \<Rightarrow> if id' = [] then None else Some id'
      | None \<Rightarrow> None)"

text \<open>The definition that an identifier resolves to in the live document.\<close>

definition definitionOf :: "env \<Rightarrow> string \<Rightarrow> node option" where
  "definitionOf env id' =
     (case querySelector env (document env) id' of Inr (Some d) \<Rightarrow> Some d | _ \<Rightarrow> None)"

text \<open>
  An identifier that has no match in the clone, resolves in the live document and is
  not the name of a property of \<^verbatim>\<open>Object.prototype\<close>.
\<close>

definition needsDefinition :: "env \<Rightarrow> node \<Rightarrow> string \<Rightarrow> bool" where
  "needsDefinition env clone id' =
     (querySelector env clone id' = Inr None
      \<and> definitionOf env id' \<noteq> None
      \<and> id' \<notin> set objectPrototypeKeys)"

text \<open>A list without its repetitions, in the order of first occurrence.\<close>

fun firstOccurrences :: "'a list \<Rightarrow> 'a list" where
  "firstOccurrences [] = []"
| "firstOccurrences (x # xs) = x # filter (\<lambda>y. y \<noteq> x) (firstOccurrences xs)"

text \<open>The identifiers that one pass over the given \<^verbatim>\<open>use\<close> elements has to clone.\<close>

definition neededIds :: "env \<Rightarrow> node \<Rightarrow> node list \<Rightarrow> string list" where
  "neededIds env clone uses =
     firstOccurrences (filter (needsDefinition env clone) (List.map_filter useReference uses))"

text \<open>
  A node that is, or that reaches through child enumeration outside of iframes, a video
  without current source whose poster fails to convert under the given options.
\<close>

inductive enclosesFailingPoster :: "env \<Rightarrow> options \<Rightarrow> node \<Rightarrow> bool" for env options where
  video:
    "isInstanceOfElement video HTMLVideoElement \<Longrightarrow>
     currentSrc (props video) = [] \<Longrightarrow>
     resourceToDataURL env (poster (props video)) (getMimeType env (poster (props video))) options = Inl e \<Longrightarrow>
     enclosesFailingPoster env options video"
| parent:
    "resolvedChildren node = Inr children \<Longrightarrow>
     child \<in> set children \<Longrightarrow>
     \<not> excluded child options False \<Longrightarrow>
     enclosesFailingPoster env options child \<Longrightarrow>
     \<not> isInstanceOfElement node HTMLVideoElement \<Longrightarrow>
     \<not> isInstanceOfElement node HTMLIFrameElement \<Longrightarrow>
     enclosesFailingPoster env options node"

text \<open>The \<^verbatim>\<open>selected\<close> and \<^verbatim>\<open>value\<close> attributes of the children of a node.\<close>

definition selectedMarkers :: "node \<Rightarrow> string option list" where
  "selectedMarkers node = map (\<lambda>child. getAttribute child ''selected'') (childNodes node)"

definition optionValues :: "node \<Rightarrow> string option list" where
  "optionValues node = map (\<lambda>child. getAttribute child ''value'') (childNodes node)"

section \<open>Example documents\<close>

definition element :: "nodeClass \<Rightarrow> string \<Rightarrow> (string \<times> string) list \<Rightarrow> node list \<Rightarrow> node" where
  "element c t as cs =
     Node \<lparr>nodeClass = c, tagName = Some t, namespaceURI = ''http://www.w3.org/1999/xhtml'',
           attributes = as, style = Some [], nodeValue = [], currentValue = [], toDataURL = Inr [],
           currentSrc = [], poster = [], clientWidth = 0, clientHeight = 0\<rparr>
       cs None None NoDocument"

text \<open>
  An environment for the examples: identifier and type selectors only, every resource
  whose address is not \<^verbatim>\<open>ok.png\<close> fails to convert, no computed style, no
  pseudo-elements.
\<close>

definition exampleEnv :: "node \<Rightarrow> env" where
  "exampleEnv doc =
     \<lparr>getMimeType = (\<lambda>url. ''image/png''),
      resourceToDataURL = (\<lambda>url contentType options.
         if url = ''ok.png'' then Inr ''data:image/png;base64,AAAA'' else Inl (ResourceError url)),
      clonePseudoElements = (\<lambda>nativeNode clonedNode. clonedNode),
      getComputedStyle = (\<lambda>node. \<lparr>cssText = [], transformOrigin = [], declarations = []\<rparr>),
      parseCssText = (\<lambda>text. []),
      parseInnerHTML = (\<lambda>text. []),
      validSelector = (\<lambda>selector. selector \<noteq> [] \<and> selector \<noteq> ''#''),
      matchesSelector = (\<lambda>selector node.
         case selector of
           [] \<Rightarrow> False
         | c # name \<Rightarrow>
             if c = CHR ''#'' then getAttribute node ''id'' = Some name
             else tagName (props node) = Some selector),
      drawVideoFrame = (\<lambda>video w h. Inr ''data:image/png;base64,BBBB''),
      document = doc,
      reducedFontSize = (\<lambda>text. text),
      settleOrder = (\<lambda>node. [])\<rparr>"

definition withoutVideos :: options where
  "withoutVideos =
     \<lparr>filterOpt = Some (\<lambda>node. nodeClass (props node) \<noteq> HTMLVideoElement), passThrough = []\<rparr>"

definition withoutSymbols :: options where
  "withoutSymbols =
     \<lparr>filterOpt = Some (\<lambda>node. tagName (props node) \<noteq> Some ''symbol''), passThrough = []\<rparr>"

definition exampleVideo :: node where
  "exampleVideo = element HTMLVideoElement ''VIDEO'' [] []"

definition exampleCanvas :: "error + string \<Rightarrow> node" where
  "exampleCanvas pixels =
     Node ((props (element HTMLCanvasElement ''CANVAS'' [] []))\<lparr>toDataURL := pixels\<rparr>)
       [] None None NoDocument"

definition exampleBody :: node where
  "exampleBody = element Element ''BODY'' [] [exampleVideo]"

definition exampleIFrame :: "node contentDoc \<Rightarrow> node" where
  "exampleIFrame doc = Node (props (element HTMLIFrameElement ''IFRAME'' [] [])) [] None None doc"

definition exampleDiv :: "string \<Rightarrow> node" where
  "exampleDiv name = element Element ''DIV'' [(''id'', name)] []"

definition exampleParent :: node where
  "exampleParent = element Element ''SECTION'' [] [exampleDiv ''a'', exampleVideo, exampleDiv ''c'']"

definition exampleSelect :: node where
  "exampleSelect =
     Node ((props (element HTMLSelectElement ''SELECT'' [] []))\<lparr>currentValue := ''b''\<rparr>)
       [] None None NoDocument"

definition exampleClonedSelect :: node where
  "exampleClonedSelect =
     element HTMLSelectElement ''SELECT'' []
       [element Element ''OPTION'' [(''value'', ''a''), (''selected'', [])] [],
        element Element ''OPTION'' [(''value'', ''b'')] [],
        element Element ''OPTION'' [(''value'', ''c'')] []]"

definition exampleSymbol :: node where
  "exampleSymbol = element Element ''symbol'' [(''id'', ''icon'')] []"

definition exampleUse :: node where
  "exampleUse = element Element ''use'' [(''xlink:href'', ''#icon'')] []"

definition exampleIcon :: node where
  "exampleIcon = element Element ''svg'' [] [exampleUse]"

definition exampleResolved :: node where
  "exampleResolved = element Element ''svg'' [] [exampleUse, exampleSymbol]"

definition exampleSymbolDocument :: node where
  "exampleSymbolDocument = element Element ''HTML'' [] [exampleSymbol, exampleIcon]"

section \<open>Basic facts\<close>

lemma andThen_resolves_Some:
  "snd (andThen p (\<lambda>v. resolve (Some v))) \<noteq> Some (Inr None)"
  by (simp add: andThen_def resolve_def split: option.splits sum.splits)

lemma excluded_root [simp]: "excluded node options True = False"
  by (simp add: excluded_def)

text \<open>A root call never resolves to null.\<close>

lemma cloneNode_root_not_null:
  "snd (cloneNode fuel env node options True) \<noteq> Some (Inr None)"
proof (cases fuel)
  case 0
  then show ?thesis by simp
next
  case (Suc n)
  then show ?thesis by (simp add: andThen_resolves_Some)
qed

section \<open>Promise.all and the append loop\<close>

lemma resolvedValue_iff: "(resolvedValue r \<noteq> None) = (\<exists>v. r = Some (Inr v))"
  by (simp add: resolvedValue_def split: option.splits sum.splits)

lemma firstRejection_None:
  "(\<And>i e. i < length rs \<Longrightarrow> rs ! i \<noteq> Some (Inl e)) \<Longrightarrow> firstRejection order rs = None"
  by (induction order) (auto split: option.splits sum.splits)

lemma firstRejection_Some:
  "i \<in> set order \<Longrightarrow> i < length rs \<Longrightarrow> rs ! i = Some (Inl e) \<Longrightarrow>
     \<exists>e'. firstRejection order rs = Some e'"
  by (induction order) (auto split: option.splits sum.splits)

lemma fst_promiseAll [simp]: "fst (promiseAll order ps) = concat (map fst ps)"
  by (simp add: promiseAll_def Let_def)

lemma promiseAll_resolves:
  assumes "\<And>p. p \<in> set ps \<Longrightarrow> \<exists>v. snd p = Some (Inr v)"
  shows "snd (promiseAll order ps) = Some (Inr (map (\<lambda>p. the (resolvedValue (snd p))) ps))"
proof -
  have "firstRejection (order @ [0..<length (map snd ps)]) (map snd ps) = None"
  proof (rule firstRejection_None)
    fix i e assume "i < length (map snd ps)"
    then have "ps ! i \<in> set ps" by simp
    from assms [OF this] show "map snd ps ! i \<noteq> Some (Inl e)"
      using \<open>i < length (map snd ps)\<close> by auto
  qed
  moreover have "list_all (\<lambda>r. resolvedValue r \<noteq> None) (map snd ps)"
    using assms by (fastforce simp add: list_all_iff resolvedValue_def)
  ultimately show ?thesis by (simp add: promiseAll_def Let_def comp_def)
qed

lemma promiseAll_rejects:
  assumes "p \<in> set ps" and "snd p = Some (Inl e)"
  shows "\<exists>e'. snd (promiseAll order ps) = Some (Inl e')"
proof -
  from assms(1) obtain i where i: "i < length ps" "ps ! i = p" by (auto simp add: in_set_conv_nth)
  then have "i \<in> set (order @ [0..<length (map snd ps)])" by simp
  moreover from i assms(2) have "i < length (map snd ps)" "map snd ps ! i = Some (Inl e)" by auto
  ultimately obtain e' where "firstRejection (order @ [0..<length (map snd ps)]) (map snd ps) = Some e'"
    using firstRejection_Some by blast
  then show ?thesis by (simp add: promiseAll_def Let_def)
qed

lemma isInstanceOfElement_appendChild [simp]:
  "isInstanceOfElement (appendChild parent child) c = isInstanceOfElement parent c"
  by (simp add: isInstanceOfElement_def appendChild_def setChildNodes_def)

lemma appendAll_element:
  "isInstanceOfElement clonedNode Element \<Longrightarrow>
     appendAll clonedNode clonedChildren
       = ([], Some (Inr (setChildNodes clonedNode
                          (childNodes clonedNode @ map the (filter (\<lambda>c. c \<noteq> None) clonedChildren)))))"
proof (induction clonedChildren arbitrary: clonedNode)
  case Nil
  then show ?case by (cases clonedNode) (simp add: resolve_def setChildNodes_def)
next
  case (Cons c cs)
  show ?case
  proof (cases c)
    case None
    with Cons show ?thesis by simp
  next
    case (Some child)
    from Cons.prems have "isInstanceOfElement (appendChild clonedNode child) Element" by simp
    from Cons.IH [OF this] Some Cons.prems show ?thesis
      by (simp add: appendChild_def setChildNodes_def)
  qed
qed

text \<open>One rejected child rejects \<open>cloneChildren\<close>.\<close>

lemma cloneChildren_rejects:
  assumes "resolvedChildren node = Inr children"
    and "child \<in> set children"
    and "snd (rec child options False) = Some (Inl e)"
    and "\<not> isInstanceOfElement node HTMLVideoElement"
  shows "\<exists>e'. snd (cloneChildren rec env node c options) = Some (Inl e')"
proof -
  from assms(2) have ne: "children \<noteq> []" by auto
  from assms(2) have "rec child options False \<in> set (map (\<lambda>child. rec child options False) children)"
    by simp
  from promiseAll_rejects [OF this assms(3)]
  obtain e' where "snd (promiseAll (settleOrder env node)
                     (map (\<lambda>child. rec child options False) children)) = Some (Inl e')"
    by blast
  with assms(1,4) ne show ?thesis
    by (simp add: cloneChildren_def attempt_def andThen_def)
qed

section \<open>The exclusion filter\<close>

text \<open>
  C1. A call of \<open>cloneNode\<close> that is not the root call and whose options carry an
  exclusion predicate that returns false on the node resolves to null: the only
  invocation recorded is the call itself, so no clone is built and no descendant is
  visited. On a root call the test is off whatever the predicate says of the node: the
  call runs the cloning pipeline and never resolves to null.
\<close>

theorem cloneNode_filter_short_circuit:
  "(\<not> isRoot \<and> filterOpt options = Some f \<and> \<not> f node \<longrightarrow>
      cloneNode (Suc fuel) env node options isRoot = ([(node, options, isRoot)], Some (Inr None)))
   \<and> \<not> excluded node options True
   \<and> snd (cloneNode fuel env node options True) \<noteq> Some (Inr None)
   \<and> cloneNode (Suc fuel) env node options True =
       andThen
         (andThen
            (andThen
               (andThen ([(node, options, True)], Some (Inr node))
                  (\<lambda>clonedNode. cloneSingleNode (cloneNode fuel env) env clonedNode options))
               (\<lambda>clonedNode. cloneChildren (cloneNode fuel env) env node clonedNode options))
            (\<lambda>clonedNode. ensureSVGSymbols (cloneNode fuel env) env (decorate env node clonedNode) options))
         (\<lambda>clonedNode. resolve (Some clonedNode))"
  using cloneNode_root_not_null [of fuel env node options]
  by (simp add: excluded_def)

theorem cloneNode_filter_short_circuit_witness:
  "cloneNode (Suc 0) (exampleEnv exampleVideo) exampleVideo withoutVideos False
     = ([(exampleVideo, withoutVideos, False)], Some (Inr None))"
  using cloneNode_filter_short_circuit
          [of False withoutVideos "\<lambda>node. nodeClass (props node) \<noteq> HTMLVideoElement"
              exampleVideo 0 "exampleEnv exampleVideo"]
  by (simp add: withoutVideos_def exampleVideo_def element_def)

section \<open>The shallow clone of a canvas\<close>

text \<open>
  C2, as the code has it. The shallow clone of a canvas node is decided by what
  \<^verbatim>\<open>toDataURL()\<close> does. When it returns \<^verbatim>\<open>data:,\<close> the clone is the structural
  copy of the canvas, without children and still a canvas. When it returns another
  serialization the clone is the image node built from that serialization, which is no
  canvas. When it throws, nothing catches the failure and the clone rejects with it.
\<close>

theorem cloneCanvasElement_by_serialization:
  "isInstanceOfElement canvas HTMLCanvasElement \<Longrightarrow>
     cloneSingleNode rec env canvas options = cloneCanvasElement canvas
     \<and> (toDataURL (props canvas) = Inr ''data:,'' \<longrightarrow>
          cloneCanvasElement canvas = ([], Some (Inr (shallowClone canvas)))
          \<and> childNodes (shallowClone canvas) = []
          \<and> props (shallowClone canvas) = props canvas
          \<and> isInstanceOfElement (shallowClone canvas) HTMLCanvasElement)
     \<and> (\<forall>dataURL. toDataURL (props canvas) = Inr dataURL \<and> dataURL \<noteq> ''data:,'' \<longrightarrow>
          (\<exists>image. cloneCanvasElement canvas = ([], Some (Inr image))
             \<and> isInstanceOfElement image HTMLImageElement
             \<and> \<not> isInstanceOfElement image HTMLCanvasElement
             \<and> getAttribute image ''src'' = Some dataURL
             \<and> createImage dataURL = ([], Some (Inr image))))
     \<and> (\<forall>e. toDataURL (props canvas) = Inl e \<longrightarrow>
          cloneCanvasElement canvas = ([], Some (Inl e))
          \<and> (\<not> excluded canvas options isRoot \<longrightarrow>
                snd (cloneNode (Suc fuel) env canvas options isRoot) = Some (Inl e)))"
  by (auto simp add: cloneSingleNode_def cloneCanvasElement_def resolve_def shallowClone_def
        isInstanceOfElement_def createImage_def getAttribute_def andThen_def attempt_def)

text \<open>
  C2 as stated fails on a canvas whose \<^verbatim>\<open>toDataURL()\<close> throws: the serialization is
  not the sentinel, and the result is no image node but a rejection, also of the whole
  \<open>cloneNode\<close> call.
\<close>

theorem cloneCanvasElement_tainted_rejects:
  "isInstanceOfElement (exampleCanvas (Inl SecurityError)) HTMLCanvasElement
   \<and> toDataURL (props (exampleCanvas (Inl SecurityError))) \<noteq> Inr ''data:,''
   \<and> cloneCanvasElement (exampleCanvas (Inl SecurityError)) = ([], Some (Inl SecurityError))
   \<and> snd (cloneNode (Suc 0) (exampleEnv exampleVideo) (exampleCanvas (Inl SecurityError))
            emptyOptions True) = Some (Inl SecurityError)"
  by (simp add: exampleCanvas_def element_def isInstanceOfElement_def cloneCanvasElement_def
        cloneSingleNode_def andThen_def attempt_def)

theorem cloneCanvasElement_by_serialization_witness:
  "cloneCanvasElement (exampleCanvas (Inr ''data:,''))
     = ([], Some (Inr (shallowClone (exampleCanvas (Inr ''data:,'')))))
   \<and> (\<exists>image. cloneCanvasElement (exampleCanvas (Inr ''data:image/png;base64,CCCC'')) = ([], Some (Inr image))
         \<and> isInstanceOfElement image HTMLImageElement
         \<and> getAttribute image ''src'' = Some ''data:image/png;base64,CCCC'')
   \<and> cloneCanvasElement (exampleCanvas (Inl SecurityError)) = ([], Some (Inl SecurityError))"
proof -
  let ?E = "exampleEnv exampleVideo"
  have a: "\<And>pixels. isInstanceOfElement (exampleCanvas pixels) HTMLCanvasElement"
    by (simp add: exampleCanvas_def element_def isInstanceOfElement_def)
  have t: "\<And>pixels. toDataURL (props (exampleCanvas pixels)) = pixels"
    by (simp add: exampleCanvas_def element_def)
  from cloneCanvasElement_by_serialization
         [OF a, where pixels1 = "Inr ''data:,''" and rec = "cloneNode 0 ?E" and env = "?E"
            and options = emptyOptions and isRoot = True and fuel = 0]
  have 1: "cloneCanvasElement (exampleCanvas (Inr ''data:,''))
     = ([], Some (Inr (shallowClone (exampleCanvas (Inr ''data:,'')))))"
    by (simp add: t del: cloneNode.simps)
  from cloneCanvasElement_by_serialization
         [OF a, where pixels1 = "Inr ''data:image/png;base64,CCCC''" and rec = "cloneNode 0 ?E"
            and env = "?E" and options = emptyOptions and isRoot = True and fuel = 0]
  have 2: "\<exists>image. cloneCanvasElement (exampleCanvas (Inr ''data:image/png;base64,CCCC'')) = ([], Some (Inr image))
         \<and> isInstanceOfElement image HTMLImageElement
         \<and> getAttribute image ''src'' = Some ''data:image/png;base64,CCCC''"
    by (auto simp add: t simp del: cloneNode.simps)
  from cloneCanvasElement_by_serialization
         [OF a, where pixels1 = "Inl SecurityError" and rec = "cloneNode 0 ?E" and env = "?E"
            and options = emptyOptions and isRoot = True and fuel = 0]
  have 3: "cloneCanvasElement (exampleCanvas (Inl SecurityError)) = ([], Some (Inl SecurityError))"
    by (simp add: t del: cloneNode.simps)
  from 1 2 3 show ?thesis by blast
qed

section \<open>The shallow clone of an iframe\<close>

lemma cloneIFrameElement_never_rejects:
  "snd (cloneIFrameElement (cloneNode fuel env) iframe) \<noteq> Some (Inl e)"
  using cloneNode_root_not_null [of fuel env _ emptyOptions]
  by (auto simp add: cloneIFrameElement_def resolve_def Let_def
        split: contentDoc.splits option.splits sum.splits)

text \<open>
  The helper by itself. For an iframe node, \<open>cloneSingleNode\<close> is
  \<open>cloneIFrameElement\<close>, which never rejects. When reading the nested document throws,
  when there is no document or no body, and when the clone of the body rejects, it
  resolves to the structural copy of the iframe element itself, which has no children.
\<close>

lemma cloneIFrameElement_absorbs_failures:
  "isInstanceOfElement iframe HTMLIFrameElement \<Longrightarrow>
     cloneSingleNode (cloneNode fuel env) env iframe options = cloneIFrameElement (cloneNode fuel env) iframe
     \<and> (\<forall>e. snd (cloneIFrameElement (cloneNode fuel env) iframe) \<noteq> Some (Inl e))
     \<and> (contentDocument iframe \<in> {AccessThrows, NoDocument, NoBody} \<longrightarrow>
           cloneIFrameElement (cloneNode fuel env) iframe = ([], Some (Inr (shallowClone iframe))))
     \<and> (\<forall>body e. contentDocument iframe = Body body
            \<and> snd (cloneNode fuel env body emptyOptions True) = Some (Inl e) \<longrightarrow>
           snd (cloneIFrameElement (cloneNode fuel env) iframe) = Some (Inr (shallowClone iframe)))
     \<and> childNodes (shallowClone iframe) = []
     \<and> props (shallowClone iframe) = props iframe
     \<and> isInstanceOfElement (shallowClone iframe) HTMLIFrameElement"
  using cloneIFrameElement_never_rejects [of fuel env iframe]
  by (auto simp add: cloneSingleNode_def isInstanceOfElement_def cloneIFrameElement_def
        resolve_def shallowClone_def Let_def)

text \<open>
  The caller of \<open>cloneNode\<close> still sees the failure. \<open>cloneChildren\<close> reads the nested
  document of the iframe again, outside of any try block: when that access throws, the
  \<open>cloneNode\<close> call on the iframe rejects after \<open>cloneIFrameElement\<close> has resolved.
\<close>

lemma cloneNode_iframe_access_rethrown:
  assumes "isInstanceOfElement iframe HTMLIFrameElement"
    and "\<not> (isSlotElement iframe \<and> assignedNodes iframe \<noteq> None)"
    and "contentDocument iframe = AccessThrows"
    and "\<not> excluded iframe options isRoot"
  shows "snd (cloneNode (Suc fuel) env iframe options isRoot) = Some (Inl SecurityError)"
  using assms
  by (auto simp add: andThen_def cloneSingleNode_def isInstanceOfElement_def cloneIFrameElement_def
        resolve_def cloneChildren_def resolvedChildren_def attempt_def Let_def)

text \<open>
  \<open>cloneChildren\<close> also clones the children of the nested body again, with the options
  of the caller and with no catch: when the clone of one of them rejects and the clone
  of the body has settled, the \<open>cloneNode\<close> call on the iframe rejects.
\<close>

lemma cloneNode_iframe_body_failure_resurfaces:
  assumes "isInstanceOfElement iframe HTMLIFrameElement"
    and "\<not> (isSlotElement iframe \<and> assignedNodes iframe \<noteq> None)"
    and "contentDocument iframe = Body body"
    and "child \<in> set (childNodes body)"
    and "snd (cloneNode fuel env child options False) = Some (Inl e)"
    and "snd (cloneNode fuel env body emptyOptions True) \<noteq> None"
    and "\<not> excluded iframe options isRoot"
  shows "\<exists>e'. snd (cloneNode (Suc fuel) env iframe options isRoot) = Some (Inl e')"
proof -
  from assms(3,6) have "snd (cloneIFrameElement (cloneNode fuel env) iframe) \<noteq> None"
    by (auto simp add: cloneIFrameElement_def Let_def split: option.splits sum.splits)
  then obtain x where x: "snd (cloneIFrameElement (cloneNode fuel env) iframe) = Some x"
    by blast
  with cloneIFrameElement_never_rejects [of fuel env iframe]
  obtain c where "x = Inr c" by (cases x) auto
  with x assms(1)
  have c: "snd (cloneSingleNode (cloneNode fuel env) env iframe options) = Some (Inr c)"
    by (simp add: cloneSingleNode_def isInstanceOfElement_def)
  from assms(1,2,3) have r: "resolvedChildren iframe = Inr (childNodes body)"
    by (auto simp add: resolvedChildren_def Let_def)
  from assms(1) have v: "\<not> isInstanceOfElement iframe HTMLVideoElement"
    by (auto simp add: isInstanceOfElement_def)
  from cloneChildren_rejects
         [where rec = "cloneNode fuel env" and options = options and env = env and c = c,
          OF r assms(4,5) v]
  obtain e' where "snd (cloneChildren (cloneNode fuel env) env iframe c options) = Some (Inl e')"
    by blast
  with assms(7) c have "snd (cloneNode (Suc fuel) env iframe options isRoot) = Some (Inl e')"
    by (simp add: andThen_def)
  then show ?thesis by blast
qed

text \<open>
  C3 fails on the code. The iframe with a video in its nested body whose poster fails to
  convert, cloned with empty options: the clone of the body rejects with the poster
  failure, \<open>cloneIFrameElement\<close> catches it and resolves to the childless copy of the
  iframe, and the \<open>cloneNode\<close> call on the iframe rejects with the poster failure all
  the same. The iframe whose nested document throws on access: \<open>cloneIFrameElement\<close>
  resolves to the childless copy, and the \<open>cloneNode\<close> call rejects with the access
  failure.
\<close>

theorem cloneNode_surfaces_iframe_failure:
  "snd (cloneNode (Suc (Suc 0)) (exampleEnv exampleBody) exampleBody emptyOptions True)
     = Some (Inl (ResourceError []))
   \<and> snd (cloneIFrameElement (cloneNode (Suc (Suc 0)) (exampleEnv exampleBody))
            (exampleIFrame (Body exampleBody)))
     = Some (Inr (shallowClone (exampleIFrame (Body exampleBody))))
   \<and> snd (cloneNode (Suc (Suc (Suc 0))) (exampleEnv exampleBody)
            (exampleIFrame (Body exampleBody)) emptyOptions True)
     = Some (Inl (ResourceError []))
   \<and> snd (cloneIFrameElement (cloneNode (Suc (Suc 0)) (exampleEnv exampleBody))
            (exampleIFrame AccessThrows))
     = Some (Inr (shallowClone (exampleIFrame AccessThrows)))
   \<and> snd (cloneNode (Suc (Suc (Suc 0))) (exampleEnv exampleBody)
            (exampleIFrame AccessThrows) emptyOptions True)
     = Some (Inl SecurityError)"
  by code_simp

section \<open>A poster that fails to convert\<close>

lemma cloneVideoElement_poster:
  assumes "currentSrc (props video) = []"
  shows "cloneVideoElement env video options
           = (case resourceToDataURL env (poster (props video)) (getMimeType env (poster (props video))) options of
                Inl e \<Rightarrow> ([], Some (Inl e))
              | Inr dataURL \<Rightarrow> createImage dataURL)"
  using assms
  by (cases "createImage (projr (resourceToDataURL env (poster (props video))
                (getMimeType env (poster (props video))) options))")
     (simp add: cloneVideoElement_def Let_def andThen_def attempt_def split: sum.splits)

lemma cloneNode_rejects_of_single:
  assumes "\<not> excluded node options isRoot"
    and "snd (cloneSingleNode (cloneNode fuel env) env node options) = Some (Inl e)"
  shows "snd (cloneNode (Suc fuel) env node options isRoot) = Some (Inl e)"
  using assms by (simp add: andThen_def)

lemma cloneNode_rejects_of_children:
  assumes "\<not> excluded node options isRoot"
    and "snd (cloneSingleNode (cloneNode fuel env) env node options) = Some (Inr c)"
    and "snd (cloneChildren (cloneNode fuel env) env node c options) = Some (Inl e)"
  shows "snd (cloneNode (Suc fuel) env node options isRoot) = Some (Inl e)"
  using assms by (simp add: andThen_def)

lemma cloneSingleNode_plain_settles:
  assumes "\<not> isInstanceOfElement node HTMLVideoElement"
    and "\<not> isInstanceOfElement node HTMLIFrameElement"
  shows "(\<exists>c. snd (cloneSingleNode rec env node options) = Some (Inr c))
       \<or> (\<exists>e. snd (cloneSingleNode rec env node options) = Some (Inl e))"
  using assms
  by (cases "toDataURL (props node)")
     (auto simp add: cloneSingleNode_def cloneCanvasElement_def createImage_def resolve_def
        andThen_def attempt_def)

text \<open>
  Outside of iframes the failure reaches the top: with enough fuel the call rejects,
  whatever the other children do.
\<close>

lemma enclosesFailingPoster_rejects:
  assumes "enclosesFailingPoster env options node"
  shows "\<forall>isRoot. \<not> excluded node options isRoot \<longrightarrow>
           (\<exists>n0. \<forall>fuel \<ge> n0. \<exists>e. snd (cloneNode fuel env node options isRoot) = Some (Inl e))"
  using assms
proof (induction rule: enclosesFailingPoster.induct)
  case (video video e)
  show ?case
  proof (intro allI impI)
    fix isRoot assume ex: "\<not> excluded video options isRoot"
    from video have "\<And>rec. snd (cloneSingleNode rec env video options) = Some (Inl e)"
      by (simp add: cloneSingleNode_def isInstanceOfElement_def cloneVideoElement_poster)
    then have "\<And>fuel. snd (cloneNode (Suc fuel) env video options isRoot) = Some (Inl e)"
      using ex by (intro cloneNode_rejects_of_single)
    then have "\<forall>fuel \<ge> Suc 0. \<exists>e. snd (cloneNode fuel env video options isRoot) = Some (Inl e)"
      by (metis Suc_le_D)
    then show "\<exists>n0. \<forall>fuel \<ge> n0. \<exists>e. snd (cloneNode fuel env video options isRoot) = Some (Inl e)"
      by blast
  qed
next
  case (parent node children child)
  from parent.IH parent.hyps(3) obtain n0
    where n0: "\<forall>fuel \<ge> n0. \<exists>e. snd (cloneNode fuel env child options False) = Some (Inl e)"
    by blast
  show ?case
  proof (intro allI impI)
    fix isRoot assume ex: "\<not> excluded node options isRoot"
    have "\<forall>fuel \<ge> Suc n0. \<exists>e. snd (cloneNode fuel env node options isRoot) = Some (Inl e)"
    proof (intro allI impI)
      fix fuel assume "Suc n0 \<le> fuel"
      then obtain m where m: "fuel = Suc m" "n0 \<le> m" by (metis Suc_le_D Suc_le_mono)
      with n0 obtain e where e: "snd (cloneNode m env child options False) = Some (Inl e)" by blast
      from cloneSingleNode_plain_settles [OF parent.hyps(5,6), of "cloneNode m env" env options]
      show "\<exists>e. snd (cloneNode fuel env node options isRoot) = Some (Inl e)"
      proof
        assume "\<exists>c. snd (cloneSingleNode (cloneNode m env) env node options) = Some (Inr c)"
        then obtain c where c: "snd (cloneSingleNode (cloneNode m env) env node options) = Some (Inr c)"
          by blast
        from cloneChildren_rejects
               [where rec = "cloneNode m env" and options = options and env = env and c = c,
                OF parent.hyps(1,2) e parent.hyps(5)]
        obtain e' where "snd (cloneChildren (cloneNode m env) env node c options) = Some (Inl e')"
          by blast
        from cloneNode_rejects_of_children [OF ex c this] m show ?thesis by blast
      next
        assume "\<exists>e. snd (cloneSingleNode (cloneNode m env) env node options) = Some (Inl e)"
        then obtain e' where "snd (cloneSingleNode (cloneNode m env) env node options) = Some (Inl e')"
          by blast
        from cloneNode_rejects_of_single [OF ex this] m show ?thesis by blast
      qed
    qed
    then show "\<exists>n0. \<forall>fuel \<ge> n0. \<exists>e. snd (cloneNode fuel env node options isRoot) = Some (Inl e)"
      by blast
  qed
qed

text \<open>
  C4, as the code has it. The clone of a video node without current source is the image
  built from the conversion of its poster; when the conversion fails,
  \<open>cloneVideoElement\<close> and \<open>cloneSingleNode\<close> reject with that failure. Nothing in
  \<open>cloneSingleNode\<close>, \<open>cloneChildren\<close> or \<open>cloneNode\<close> catches it: every call of
  \<open>cloneNode\<close> that reaches such a video through the child lists of nodes that are
  no iframes, and that the filter admits, rejects. The one catch is the try block of
  \<open>cloneIFrameElement\<close>, which turns a rejected clone of the nested body into the
  structural copy of the iframe.
\<close>

theorem poster_failure_propagates:
  "(isInstanceOfElement video HTMLVideoElement \<and> currentSrc (props video) = [] \<longrightarrow>
      cloneSingleNode rec env video options = cloneVideoElement env video options
      \<and> cloneVideoElement env video options
          = (case resourceToDataURL env (poster (props video)) (getMimeType env (poster (props video))) options of
               Inl e \<Rightarrow> ([], Some (Inl e))
             | Inr dataURL \<Rightarrow> createImage dataURL))
   \<and> (enclosesFailingPoster env options node \<and> \<not> excluded node options isRoot \<longrightarrow>
        (\<exists>n0. \<forall>fuel \<ge> n0. \<exists>e. snd (cloneNode fuel env node options isRoot) = Some (Inl e)))
   \<and> (contentDocument iframe = Body body \<and> snd (rec body emptyOptions True) = Some (Inl e) \<longrightarrow>
        snd (cloneIFrameElement rec iframe) = Some (Inr (shallowClone iframe)))"
proof (intro conjI impI)
  assume a: "isInstanceOfElement video HTMLVideoElement \<and> currentSrc (props video) = []"
  then show "cloneSingleNode rec env video options = cloneVideoElement env video options"
    by (simp add: cloneSingleNode_def isInstanceOfElement_def)
  from a show "cloneVideoElement env video options
          = (case resourceToDataURL env (poster (props video)) (getMimeType env (poster (props video))) options of
               Inl e \<Rightarrow> ([], Some (Inl e))
             | Inr dataURL \<Rightarrow> createImage dataURL)"
    by (simp add: cloneVideoElement_poster)
next
  assume "enclosesFailingPoster env options node \<and> \<not> excluded node options isRoot"
  with enclosesFailingPoster_rejects [of env options node]
  show "\<exists>n0. \<forall>fuel \<ge> n0. \<exists>e. snd (cloneNode fuel env node options isRoot) = Some (Inl e)"
    by blast
next
  assume "contentDocument iframe = Body body \<and> snd (rec body emptyOptions True) = Some (Inl e)"
  then show "snd (cloneIFrameElement rec iframe) = Some (Inr (shallowClone iframe))"
    by (simp add: cloneIFrameElement_def Let_def)
qed

theorem poster_failure_propagates_witness:
  "\<exists>n0. \<forall>fuel \<ge> n0. \<exists>e.
      snd (cloneNode fuel (exampleEnv exampleParent) exampleParent emptyOptions True) = Some (Inl e)"
proof -
  let ?E = "exampleEnv exampleParent"
  have v1: "isInstanceOfElement exampleVideo HTMLVideoElement" by code_simp
  have v2: "currentSrc (props exampleVideo) = []" by code_simp
  have v3: "resourceToDataURL ?E (poster (props exampleVideo))
              (getMimeType ?E (poster (props exampleVideo))) emptyOptions = Inl (ResourceError [])"
    by code_simp
  have v: "enclosesFailingPoster ?E emptyOptions exampleVideo"
    by (rule enclosesFailingPoster.video [OF v1 v2 v3])
  have p1: "resolvedChildren exampleParent = Inr [exampleDiv ''a'', exampleVideo, exampleDiv ''c'']"
    by code_simp
  have p2: "exampleVideo \<in> set [exampleDiv ''a'', exampleVideo, exampleDiv ''c'']" by simp
  have p3: "\<not> excluded exampleVideo emptyOptions False" by code_simp
  have p5: "\<not> isInstanceOfElement exampleParent HTMLVideoElement" by code_simp
  have p6: "\<not> isInstanceOfElement exampleParent HTMLIFrameElement" by code_simp
  have p: "enclosesFailingPoster ?E emptyOptions exampleParent"
    by (rule enclosesFailingPoster.parent [OF p1 p2 p3 v p5 p6])
  have r: "\<not> excluded exampleParent emptyOptions True" by simp
  from poster_failure_propagates
         [where env = "?E" and options = emptyOptions and node = exampleParent and isRoot = True
            and video = exampleVideo and rec = "cloneNode 0 ?E" and iframe = exampleVideo
            and body = exampleVideo and e = SecurityError] p r
  show ?thesis by blast
qed

text \<open>
  C4 as stated fails: a video with a failing poster inside the body of an iframe, and a
  filter that rejects videos. The clone of the body, made with the empty options,
  rejects with the poster failure; the try block catches it; the children of the body
  are then cloned with the filter, which drops the video; the top-level call resolves.
\<close>

theorem poster_failure_absorbed_by_iframe:
  "snd (cloneNode (Suc 0) (exampleEnv exampleBody) exampleVideo emptyOptions False)
     = Some (Inl (ResourceError []))
   \<and> snd (cloneNode (Suc (Suc 0)) (exampleEnv exampleBody) exampleBody emptyOptions True)
     = Some (Inl (ResourceError []))
   \<and> callTargets (fst (cloneNode (Suc (Suc (Suc 0))) (exampleEnv exampleBody)
                          (exampleIFrame (Body exampleBody)) withoutVideos True))
     = [(exampleIFrame (Body exampleBody), True), (exampleBody, True), (exampleVideo, False),
        (exampleVideo, False)]
   \<and> snd (cloneNode (Suc (Suc (Suc 0))) (exampleEnv exampleBody)
            (exampleIFrame (Body exampleBody)) withoutVideos True)
     = Some (Inr (Some (exampleIFrame NoDocument)))"
  by code_simp

section \<open>The order of the cloned children\<close>

text \<open>
  C5. Let the resolved child list of a node that is no video be non-empty, let the clone
  of every child resolve, and let the clone of the node be an element. Then
  \<open>cloneChildren\<close> resolves, in whatever order the clones of the children settle, to
  the clone with the non-null clones of the children appended in the order of the
  resolved child list: the children kept are a subsequence of that list, and a child
  whose clone is null leaves no placeholder.
\<close>

theorem cloneChildren_source_order:
  assumes "resolvedChildren nativeNode = Inr children"
    and "children \<noteq> []"
    and "\<not> isInstanceOfElement nativeNode HTMLVideoElement"
    and "\<forall>child \<in> set children. \<exists>v. snd (rec child options False) = Some (Inr v)"
    and "isInstanceOfElement clonedNode Element"
  shows "\<exists>kept. kept = filter (\<lambda>child. snd (rec child options False) \<noteq> Some (Inr None)) children
           \<and> subseq kept children
           \<and> (\<forall>order. snd (cloneChildren rec (env\<lparr>settleOrder := order\<rparr>) nativeNode clonedNode options)
                 = Some (Inr (setChildNodes clonedNode
                     (childNodes clonedNode
                        @ map (\<lambda>child. the (the (resolvedValue (snd (rec child options False))))) kept))))"
proof (intro exI conjI allI)
  let ?kept = "filter (\<lambda>child. snd (rec child options False) \<noteq> Some (Inr None)) children"
  show "?kept = ?kept" by simp
  show "subseq ?kept children" by simp
  fix order
  let ?ps = "map (\<lambda>child. rec child options False) children"
  have all: "snd (promiseAll (order nativeNode) ?ps)
               = Some (Inr (map (\<lambda>p. the (resolvedValue (snd p))) ?ps))"
    by (rule promiseAll_resolves) (use assms(4) in auto)
  have vals: "map the (filter (\<lambda>c. c \<noteq> None) (map (\<lambda>p. the (resolvedValue (snd p))) ?ps))
            = map (\<lambda>child. the (the (resolvedValue (snd (rec child options False))))) ?kept"
    using assms(4)
  proof (induction children)
    case Nil
    then show ?case by simp
  next
    case (Cons c cs)
    then obtain v where "snd (rec c options False) = Some (Inr v)" by auto
    with Cons show ?case by (cases v) (auto simp add: resolvedValue_def)
  qed
  from assms(1,2,3,5) all vals
  show "snd (cloneChildren rec (env\<lparr>settleOrder := order\<rparr>) nativeNode clonedNode options)
          = Some (Inr (setChildNodes clonedNode (childNodes clonedNode
                @ map (\<lambda>child. the (the (resolvedValue (snd (rec child options False))))) ?kept)))"
    by (simp add: cloneChildren_def attempt_def andThen_def appendAll_element)
qed

theorem cloneChildren_source_order_witness:
  "filter (\<lambda>child. snd (cloneNode (Suc 0) (exampleEnv exampleParent) child withoutVideos False) \<noteq> Some (Inr None))
       [exampleDiv ''a'', exampleVideo, exampleDiv ''c'']
     = [exampleDiv ''a'', exampleDiv ''c'']
   \<and> snd (cloneChildren (cloneNode (Suc 0) (exampleEnv exampleParent))
            ((exampleEnv exampleParent)\<lparr>settleOrder := (\<lambda>node. [2, 0, 1])\<rparr>)
            exampleParent (shallowClone exampleParent) withoutVideos)
     = Some (Inr (setChildNodes (shallowClone exampleParent)
         (map (\<lambda>child. the (the (resolvedValue
                 (snd (cloneNode (Suc 0) (exampleEnv exampleParent) child withoutVideos False)))))
            [exampleDiv ''a'', exampleDiv ''c''])))"
proof -
  let ?rec = "cloneNode (Suc 0) (exampleEnv exampleParent)"
  have a: "resolvedChildren exampleParent = Inr [exampleDiv ''a'', exampleVideo, exampleDiv ''c'']"
    by code_simp
  have b: "[exampleDiv ''a'', exampleVideo, exampleDiv ''c''] \<noteq> []" by simp
  have c: "\<not> isInstanceOfElement exampleParent HTMLVideoElement" by code_simp
  have d1: "snd (?rec (exampleDiv ''a'') withoutVideos False) \<noteq> Some (Inr None)"
    by code_simp
  have d2: "snd (?rec exampleVideo withoutVideos False) = Some (Inr None)"
    by code_simp
  have d3: "snd (?rec (exampleDiv ''c'') withoutVideos False) \<noteq> Some (Inr None)"
    by code_simp
  have e1: "resolvedValue (snd (?rec (exampleDiv ''a'') withoutVideos False)) \<noteq> None"
    by code_simp
  have e3: "resolvedValue (snd (?rec (exampleDiv ''c'') withoutVideos False)) \<noteq> None"
    by code_simp
  have e: "\<forall>child \<in> set [exampleDiv ''a'', exampleVideo, exampleDiv ''c''].
             \<exists>v. snd (?rec child withoutVideos False) = Some (Inr v)"
    using e1 [unfolded resolvedValue_iff] e3 [unfolded resolvedValue_iff] d2
    by (simp del: cloneNode.simps)
  have f: "isInstanceOfElement (shallowClone exampleParent) Element" by code_simp
  from cloneChildren_source_order
         [where rec = "?rec" and options = withoutVideos and env = "exampleEnv exampleParent",
          OF a b c e f] d1 d2 d3
  show ?thesis by (simp add: shallowClone_def del: cloneNode.simps)
qed

section \<open>The options of the recursive calls\<close>

lemma andThen_log_cases:
  "c \<in> set (fst (andThen p f)) \<Longrightarrow>
     c \<in> set (fst p) \<or> (\<exists>v. snd p = Some (Inr v) \<and> c \<in> set (fst (f v)))"
  by (auto simp add: andThen_def split: option.splits sum.splits)

lemma andThen_log_first: "set (fst p) \<subseteq> set (fst (andThen p f))"
  by (auto simp add: andThen_def split: option.splits sum.splits)

lemma andThen_log_second: "snd p = Some (Inr v) \<Longrightarrow> set (fst (f v)) \<subseteq> set (fst (andThen p f))"
  by (auto simp add: andThen_def split: option.splits sum.splits)

lemma fst_appendAll [simp]: "fst (appendAll clonedNode clonedChildren) = []"
  by (induction clonedNode clonedChildren rule: appendAll.induct) (simp_all add: resolve_def reject_def)

lemma fst_cloneSingleNode:
  "fst (cloneSingleNode rec env node options)
     = (case nestedBody node of Some body \<Rightarrow> fst (rec body emptyOptions True) | None \<Rightarrow> [])"
  by (auto simp add: cloneSingleNode_def nestedBody_def isInstanceOfElement_def cloneCanvasElement_def
        cloneVideoElement_def cloneIFrameElement_def createImage_def resolve_def attempt_def
        andThen_def Let_def split: contentDoc.splits option.splits sum.splits)

lemma fst_cloneChildren:
  "fst (cloneChildren rec env nativeNode clonedNode options)
     = (case resolvedChildren nativeNode of
          Inl e \<Rightarrow> []
        | Inr children \<Rightarrow>
            if children = [] \<or> isInstanceOfElement nativeNode HTMLVideoElement then []
            else concat (map (\<lambda>child. fst (rec child options False)) children))"
  by (auto simp add: cloneChildren_def andThen_def attempt_def resolve_def promiseAll_def Let_def comp_def
        split: sum.splits option.splits)

lemma collectDefs_log_shape:
  "fst (collectDefs rec env clone options (use # uses) pd) = []
   \<or> fst (collectDefs rec env clone options (use # uses) pd) = fst (collectDefs rec env clone options uses pd)
   \<or> (\<exists>d. fst (collectDefs rec env clone options (use # uses) pd) = fst (rec d options True)
          \<or> (\<exists>id' c. fst (collectDefs rec env clone options (use # uses) pd)
                = fst (rec d options True)
                  @ fst (collectDefs rec env clone options uses (AList.update id' c pd))))"
  by (auto simp add: andThen_def attempt_def split: option.splits sum.splits)

lemma collectDefs_log:
  "c \<in> set (fst (collectDefs rec env clone options uses pd)) \<Longrightarrow>
     \<exists>d. c \<in> set (fst (rec d options True))
        \<and> set (fst (rec d options True)) \<subseteq> set (fst (collectDefs rec env clone options uses pd))"
proof (induction uses arbitrary: pd)
  case Nil
  then show ?case by (simp add: resolve_def)
next
  case (Cons use uses)
  let ?X = "fst (collectDefs rec env clone options (use # uses) pd)"
  from collectDefs_log_shape [of rec env clone options use uses pd]
  consider "?X = []"
    | "?X = fst (collectDefs rec env clone options uses pd)"
    | d where "?X = fst (rec d options True)"
    | d id' c' where "?X = fst (rec d options True)
                  @ fst (collectDefs rec env clone options uses (AList.update id' c' pd))"
    by blast
  then show ?case
  proof cases
    case 1
    with Cons.prems show ?thesis by simp
  next
    case 2
    with Cons.prems Cons.IH [of pd] show ?thesis by simp
  next
    case 3
    with Cons.prems show ?thesis by auto
  next
    case 4
    with Cons.prems have "c \<in> set (fst (rec d options True))
         \<or> c \<in> set (fst (collectDefs rec env clone options uses (AList.update id' c' pd)))"
      by simp
    then show ?thesis
    proof
      assume "c \<in> set (fst (rec d options True))"
      with 4 show ?thesis by auto
    next
      assume "c \<in> set (fst (collectDefs rec env clone options uses (AList.update id' c' pd)))"
      from Cons.IH [OF this] 4 show ?thesis by auto
    qed
  qed
qed

lemma fst_ensureSVGSymbols:
  "fst (ensureSVGSymbols rec env clone options)
     = fst (collectDefs rec env clone options (useElements env clone) [])"
  by (auto simp add: ensureSVGSymbols_def Let_def andThen_def resolve_def reject_def
        split: option.splits sum.splits)

lemma cloneNode_logs_itself:
  "(node, options, isRoot) \<in> set (fst (cloneNode fuel env node options isRoot))"
proof (cases fuel)
  case 0
  then show ?thesis by simp
next
  case (Suc n)
  have "(node, options, isRoot) \<in> set (fst (andThen ([(node, options, isRoot)], Some (Inr node))
           (\<lambda>clonedNode. cloneSingleNode (cloneNode n env) env clonedNode options)))"
    using andThen_log_first [of "([(node, options, isRoot)], Some (Inr node))"] by auto
  then show ?thesis
    using Suc by (auto intro: subsetD [OF andThen_log_first])
qed

text \<open>
  Every invocation recorded by a call is the call itself or lies in the record of a
  call made by one step: with the same options, or with the empty options on the body
  of the nested document.
\<close>

lemma cloneNode_log_cases:
  assumes "c \<in> set (fst (cloneNode (Suc n) env node options isRoot))"
  shows "c = (node, options, isRoot)
     \<or> (\<exists>nd op r. c \<in> set (fst (cloneNode n env nd op r))
           \<and> set (fst (cloneNode n env nd op r)) \<subseteq> set (fst (cloneNode (Suc n) env node options isRoot))
           \<and> (op = options \<or> (op = emptyOptions \<and> nestedBody node = Some nd)))"
proof (cases "excluded node options isRoot")
  case True
  with assms show ?thesis by simp
next
  case False
  let ?rec = "cloneNode n env"
  let ?p0 = "([(node, options, isRoot)], Some (Inr node)) :: node promise"
  let ?p1 = "andThen ?p0 (\<lambda>clonedNode. cloneSingleNode ?rec env clonedNode options)"
  let ?p2 = "andThen ?p1 (\<lambda>clonedNode. cloneChildren ?rec env node clonedNode options)"
  let ?p3 = "andThen ?p2 (\<lambda>clonedNode. ensureSVGSymbols ?rec env (decorate env node clonedNode) options)"
  let ?p4 = "andThen ?p3 (\<lambda>clonedNode. resolve (Some clonedNode))"
  let ?L = "set (fst (cloneNode (Suc n) env node options isRoot))"
  from False have whole: "cloneNode (Suc n) env node options isRoot = ?p4" by simp
  have s3: "set (fst ?p3) \<subseteq> ?L" unfolding whole by (rule andThen_log_first)
  have s2: "set (fst ?p2) \<subseteq> ?L" using andThen_log_first [of ?p2] s3 by blast
  have s1: "set (fst ?p1) \<subseteq> ?L" using andThen_log_first [of ?p1] s2 by blast
  from assms have "c \<in> set (fst ?p4)" by (simp only: whole)
  then have "c \<in> set (fst ?p3)"
    by (auto dest!: andThen_log_cases simp add: resolve_def)
  then consider
      (self) "c \<in> set (fst ?p0)"
    | (single) "c \<in> set (fst (cloneSingleNode ?rec env node options))"
        "set (fst (cloneSingleNode ?rec env node options)) \<subseteq> ?L"
    | (children) v where "c \<in> set (fst (cloneChildren ?rec env node v options))"
        "set (fst (cloneChildren ?rec env node v options)) \<subseteq> ?L"
    | (symbols) v where "c \<in> set (fst (ensureSVGSymbols ?rec env (decorate env node v) options))"
        "set (fst (ensureSVGSymbols ?rec env (decorate env node v) options)) \<subseteq> ?L"
  proof -
    assume a: "c \<in> set (fst ?p3)"
      and r0: "c \<in> set (fst ?p0) \<Longrightarrow> thesis"
      and r1: "c \<in> set (fst (cloneSingleNode ?rec env node options)) \<Longrightarrow>
              set (fst (cloneSingleNode ?rec env node options)) \<subseteq> ?L \<Longrightarrow> thesis"
      and r2: "\<And>v. c \<in> set (fst (cloneChildren ?rec env node v options)) \<Longrightarrow>
              set (fst (cloneChildren ?rec env node v options)) \<subseteq> ?L \<Longrightarrow> thesis"
      and r3: "\<And>v. c \<in> set (fst (ensureSVGSymbols ?rec env (decorate env node v) options)) \<Longrightarrow>
              set (fst (ensureSVGSymbols ?rec env (decorate env node v) options)) \<subseteq> ?L \<Longrightarrow> thesis"
    from andThen_log_cases [OF a] show thesis
    proof
      assume b: "c \<in> set (fst ?p2)"
      from andThen_log_cases [OF b] show thesis
      proof
        assume d: "c \<in> set (fst ?p1)"
        from andThen_log_cases [OF d] show thesis
        proof
          assume "c \<in> set (fst ?p0)"
          then show thesis by (rule r0)
        next
          assume "\<exists>v. snd ?p0 = Some (Inr v) \<and> c \<in> set (fst (cloneSingleNode ?rec env v options))"
          then have e: "c \<in> set (fst (cloneSingleNode ?rec env node options))" by simp
          have "set (fst (cloneSingleNode ?rec env node options)) \<subseteq> set (fst ?p1)"
            by (rule andThen_log_second) simp
          with s1 e show thesis by (intro r1) auto
        qed
      next
        assume "\<exists>v. snd ?p1 = Some (Inr v) \<and> c \<in> set (fst (cloneChildren ?rec env node v options))"
        then obtain v where v: "snd ?p1 = Some (Inr v)"
          and e: "c \<in> set (fst (cloneChildren ?rec env node v options))" by blast
        from andThen_log_second [OF v, of "\<lambda>clonedNode. cloneChildren ?rec env node clonedNode options"] s2
        have "set (fst (cloneChildren ?rec env node v options)) \<subseteq> ?L" by blast
        with e show thesis by (rule r2)
      qed
    next
      assume "\<exists>v. snd ?p2 = Some (Inr v)
                \<and> c \<in> set (fst (ensureSVGSymbols ?rec env (decorate env node v) options))"
      then obtain v where v: "snd ?p2 = Some (Inr v)"
        and e: "c \<in> set (fst (ensureSVGSymbols ?rec env (decorate env node v) options))" by blast
      from andThen_log_second
             [OF v, of "\<lambda>clonedNode. ensureSVGSymbols ?rec env (decorate env node clonedNode) options"] s3
      have "set (fst (ensureSVGSymbols ?rec env (decorate env node v) options)) \<subseteq> ?L" by blast
      with e show thesis by (rule r3)
    qed
  qed
  then show ?thesis
  proof cases
    case self
    then show ?thesis by simp
  next
    case single
    show ?thesis
    proof (cases "nestedBody node")
      case None
      with single(1) show ?thesis by (simp add: fst_cloneSingleNode)
    next
      case (Some body)
      then have l: "fst (cloneSingleNode ?rec env node options) = fst (?rec body emptyOptions True)"
        by (simp add: fst_cloneSingleNode)
      from single(1) have "c \<in> set (fst (?rec body emptyOptions True))" by (simp only: l)
      moreover from single(2) have "set (fst (?rec body emptyOptions True)) \<subseteq> ?L" by (simp only: l)
      ultimately show ?thesis using Some by blast
    qed
  next
    case (children v)
    show ?thesis
    proof (cases "resolvedChildren node")
      case (Inl e)
      with children(1) show ?thesis by (simp add: fst_cloneChildren)
    next
      case (Inr cs)
      show ?thesis
      proof (cases "cs = [] \<or> isInstanceOfElement node HTMLVideoElement")
        case True
        with Inr children(1) show ?thesis by (simp add: fst_cloneChildren)
      next
        case False
        with Inr have l: "fst (cloneChildren ?rec env node v options)
                = concat (map (\<lambda>child. fst (?rec child options False)) cs)"
          by (simp add: fst_cloneChildren)
        from children(1) obtain child where ch: "child \<in> set cs"
            "c \<in> set (fst (?rec child options False))"
          by (auto simp only: l set_concat set_map)
        from ch(1) have "set (fst (?rec child options False))
                           \<subseteq> set (concat (map (\<lambda>child. fst (?rec child options False)) cs))"
          by (auto simp only: set_concat set_map)
        moreover from children(2)
        have "set (concat (map (\<lambda>child. fst (?rec child options False)) cs)) \<subseteq> ?L"
          by (simp only: l)
        ultimately have "set (fst (?rec child options False)) \<subseteq> ?L" by blast
        with ch(2) show ?thesis by blast
      qed
    qed
  next
    case (symbols v)
    from symbols(1) have "c \<in> set (fst (collectDefs ?rec env (decorate env node v) options
                                  (useElements env (decorate env node v)) []))"
      by (simp only: fst_ensureSVGSymbols)
    from collectDefs_log [OF this] obtain d where "c \<in> set (fst (?rec d options True))"
      "set (fst (?rec d options True)) \<subseteq> set (fst (ensureSVGSymbols ?rec env (decorate env node v) options))"
      by (auto simp only: fst_ensureSVGSymbols)
    with symbols(2) show ?thesis by blast
  qed
qed

lemma cloneNode_calls_body:
  assumes "nestedBody node = Some body" and "\<not> excluded node options isRoot"
  shows "(body, emptyOptions, True) \<in> set (fst (cloneNode (Suc fuel) env node options isRoot))"
proof -
  let ?rec = "cloneNode fuel env"
  let ?p0 = "([(node, options, isRoot)], Some (Inr node)) :: node promise"
  let ?p1 = "andThen ?p0 (\<lambda>clonedNode. cloneSingleNode ?rec env clonedNode options)"
  from assms(1) have "fst (cloneSingleNode ?rec env node options) = fst (?rec body emptyOptions True)"
    by (simp add: fst_cloneSingleNode)
  with cloneNode_logs_itself [of body emptyOptions True fuel env]
  have "(body, emptyOptions, True) \<in> set (fst (cloneSingleNode ?rec env node options))" by simp
  moreover have "set (fst (cloneSingleNode ?rec env node options)) \<subseteq> set (fst ?p1)"
    by (rule andThen_log_second) simp
  ultimately have "(body, emptyOptions, True) \<in> set (fst ?p1)" by blast
  with assms(2) show ?thesis
    by (auto intro: subsetD [OF andThen_log_first])
qed

text \<open>
  The options of the recorded invocations, taken as a set.
\<close>

lemma cloneNode_log_options:
  "(\<forall>c \<in> set (fst (cloneNode fuel env node options isRoot)).
       callOptions c = options \<or> callOptions c = emptyOptions)
   \<and> ((\<forall>c \<in> set (fst (cloneNode fuel env node options isRoot)). nestedBody (callNode c) = None) \<longrightarrow>
        (\<forall>c \<in> set (fst (cloneNode fuel env node options isRoot)). callOptions c = options))
   \<and> (\<forall>body. nestedBody node = Some body \<and> \<not> excluded node options isRoot \<longrightarrow>
        (body, emptyOptions, True) \<in> set (fst (cloneNode (Suc fuel) env node options isRoot)))"
proof (intro conjI)
  show "\<forall>c \<in> set (fst (cloneNode fuel env node options isRoot)).
       callOptions c = options \<or> callOptions c = emptyOptions"
  proof (induction fuel arbitrary: node options isRoot)
    case 0
    show ?case by (simp add: callOptions_def)
  next
    case (Suc n)
    show ?case
    proof
      fix c assume "c \<in> set (fst (cloneNode (Suc n) env node options isRoot))"
      from cloneNode_log_cases [OF this] show "callOptions c = options \<or> callOptions c = emptyOptions"
      proof
        assume "c = (node, options, isRoot)"
        then show ?thesis by (simp add: callOptions_def)
      next
        assume "\<exists>nd op r. c \<in> set (fst (cloneNode n env nd op r))
           \<and> set (fst (cloneNode n env nd op r)) \<subseteq> set (fst (cloneNode (Suc n) env node options isRoot))
           \<and> (op = options \<or> (op = emptyOptions \<and> nestedBody node = Some nd))"
        then obtain nd op r where "c \<in> set (fst (cloneNode n env nd op r))"
          and "op = options \<or> op = emptyOptions" by blast
        with Suc.IH [of nd op r] show ?thesis by auto
      qed
    qed
  qed
next
  show "(\<forall>c \<in> set (fst (cloneNode fuel env node options isRoot)). nestedBody (callNode c) = None) \<longrightarrow>
        (\<forall>c \<in> set (fst (cloneNode fuel env node options isRoot)). callOptions c = options)"
  proof (induction fuel arbitrary: node options isRoot)
    case 0
    show ?case by (simp add: callOptions_def)
  next
    case (Suc n)
    show ?case
    proof (intro impI ballI)
      fix c
      assume none: "\<forall>c \<in> set (fst (cloneNode (Suc n) env node options isRoot)). nestedBody (callNode c) = None"
        and c: "c \<in> set (fst (cloneNode (Suc n) env node options isRoot))"
      from none cloneNode_logs_itself [of node options isRoot "Suc n" env]
      have nb: "nestedBody node = None" by (auto simp add: callNode_def simp del: cloneNode.simps)
      from cloneNode_log_cases [OF c] show "callOptions c = options"
      proof
        assume "c = (node, options, isRoot)"
        then show ?thesis by (simp add: callOptions_def)
      next
        assume "\<exists>nd op r. c \<in> set (fst (cloneNode n env nd op r))
           \<and> set (fst (cloneNode n env nd op r)) \<subseteq> set (fst (cloneNode (Suc n) env node options isRoot))
           \<and> (op = options \<or> (op = emptyOptions \<and> nestedBody node = Some nd))"
        with nb obtain nd r where in': "c \<in> set (fst (cloneNode n env nd options r))"
          and sub: "set (fst (cloneNode n env nd options r))
                      \<subseteq> set (fst (cloneNode (Suc n) env node options isRoot))"
          by auto
        from none sub have "\<forall>c \<in> set (fst (cloneNode n env nd options r)). nestedBody (callNode c) = None"
          by blast
        with Suc.IH [of nd options r] in' show ?thesis by blast
      qed
    qed
  qed
next
  show "\<forall>body. nestedBody node = Some body \<and> \<not> excluded node options isRoot \<longrightarrow>
        (body, emptyOptions, True) \<in> set (fst (cloneNode (Suc fuel) env node options isRoot))"
    using cloneNode_calls_body [of node _ options isRoot fuel env] by blast
qed

lemma collectDefs_log_exact:
  "\<exists>ds. fst (collectDefs rec env clone options uses pd)
          = concat (map (\<lambda>d. fst (rec d options True)) ds)"
proof (induction uses arbitrary: pd)
  case Nil
  have "fst (collectDefs rec env clone options [] pd) = concat (map (\<lambda>d. fst (rec d options True)) [])"
    by (simp add: resolve_def)
  then show ?case by blast
next
  case (Cons use uses)
  let ?X = "fst (collectDefs rec env clone options (use # uses) pd)"
  from collectDefs_log_shape [of rec env clone options use uses pd]
  consider "?X = []"
    | "?X = fst (collectDefs rec env clone options uses pd)"
    | d where "?X = fst (rec d options True)"
    | d id' c' where "?X = fst (rec d options True)
                  @ fst (collectDefs rec env clone options uses (AList.update id' c' pd))"
    by blast
  then show ?case
  proof cases
    case 1
    then have "?X = concat (map (\<lambda>d. fst (rec d options True)) [])" by simp
    then show ?thesis by blast
  next
    case 2
    with Cons.IH [of pd] show ?thesis by simp
  next
    case 3
    then have "?X = concat (map (\<lambda>d. fst (rec d options True)) [d])" by simp
    then show ?thesis by blast
  next
    case 4
    from Cons.IH [of "AList.update id' c' pd"] obtain ds
      where "fst (collectDefs rec env clone options uses (AList.update id' c' pd))
               = concat (map (\<lambda>d. fst (rec d options True)) ds)" by blast
    with 4 have "?X = concat (map (\<lambda>d. fst (rec d options True)) (d # ds))" by simp
    then show ?thesis by blast
  qed
qed

lemma fst_cloneNode_Suc:
  "fst (cloneNode (Suc fuel) env node options isRoot)
     = (if excluded node options isRoot then [(node, options, isRoot)]
        else (node, options, isRoot)
             # fst (cloneSingleNode (cloneNode fuel env) env node options)
             @ (case snd (cloneSingleNode (cloneNode fuel env) env node options) of
                  Some (Inr c1) \<Rightarrow>
                    fst (cloneChildren (cloneNode fuel env) env node c1 options)
                    @ (case snd (cloneChildren (cloneNode fuel env) env node c1 options) of
                         Some (Inr c2) \<Rightarrow>
                           fst (ensureSVGSymbols (cloneNode fuel env) env (decorate env node c2) options)
                       | _ \<Rightarrow> [])
                | _ \<Rightarrow> []))"
  by (simp add: andThen_def resolve_def split: option.splits sum.splits)

text \<open>
  C6, as the code has it. Each step hands on the options it got, but for one.
  \<open>cloneChildren\<close> calls the cloner on every resolved child with the options of the
  caller and no root flag, also for the children of the body of an iframe;
  \<open>ensureSVGSymbols\<close> calls it on definitions with the options of the caller and the
  root flag; \<open>cloneSingleNode\<close> calls it only on the body of the nested document of an
  iframe, with the empty options \<^verbatim>\<open>{}\<close> and the root flag. The record of a call of
  \<open>cloneNode\<close> is the call followed by the records of these three steps. So every
  invocation that a call records got the options of that call or the empty options,
  and when no recorded invocation is on an iframe with a nested document body, every
  one got the options of the call unchanged.
\<close>

theorem cloneNode_threads_options:
  "(\<forall>c \<in> set (fst (cloneNode fuel env node options isRoot)).
       callOptions c = options \<or> callOptions c = emptyOptions)
   \<and> ((\<forall>c \<in> set (fst (cloneNode fuel env node options isRoot)). nestedBody (callNode c) = None) \<longrightarrow>
        (\<forall>c \<in> set (fst (cloneNode fuel env node options isRoot)). callOptions c = options))
   \<and> (\<forall>body. nestedBody node = Some body \<and> \<not> excluded node options isRoot \<longrightarrow>
        (body, emptyOptions, True) \<in> set (fst (cloneNode (Suc fuel) env node options isRoot)))
   \<and> (\<forall>rec clonedNode.
        fst (cloneChildren rec env node clonedNode options)
          = (case resolvedChildren node of
               Inl e \<Rightarrow> []
             | Inr children \<Rightarrow>
                 if children = [] \<or> isInstanceOfElement node HTMLVideoElement then []
                 else concat (map (\<lambda>child. fst (rec child options False)) children)))
   \<and> (\<forall>rec. fst (cloneSingleNode rec env node options)
          = (case nestedBody node of Some body \<Rightarrow> fst (rec body emptyOptions True) | None \<Rightarrow> []))
   \<and> (\<forall>rec clone. \<exists>definitions.
          fst (ensureSVGSymbols rec env clone options)
            = concat (map (\<lambda>d. fst (rec d options True)) definitions))
   \<and> fst (cloneNode (Suc fuel) env node options isRoot)
       = (if excluded node options isRoot then [(node, options, isRoot)]
          else (node, options, isRoot)
               # fst (cloneSingleNode (cloneNode fuel env) env node options)
               @ (case snd (cloneSingleNode (cloneNode fuel env) env node options) of
                    Some (Inr c1) \<Rightarrow>
                      fst (cloneChildren (cloneNode fuel env) env node c1 options)
                      @ (case snd (cloneChildren (cloneNode fuel env) env node c1 options) of
                           Some (Inr c2) \<Rightarrow>
                             fst (ensureSVGSymbols (cloneNode fuel env) env (decorate env node c2) options)
                         | _ \<Rightarrow> [])
                  | _ \<Rightarrow> []))"
proof -
  have 4: "\<forall>rec clonedNode.
        fst (cloneChildren rec env node clonedNode options)
          = (case resolvedChildren node of
               Inl e \<Rightarrow> []
             | Inr children \<Rightarrow>
                 if children = [] \<or> isInstanceOfElement node HTMLVideoElement then []
                 else concat (map (\<lambda>child. fst (rec child options False)) children))"
    by (simp only: fst_cloneChildren) simp
  have 5: "\<forall>rec. fst (cloneSingleNode rec env node options)
          = (case nestedBody node of Some body \<Rightarrow> fst (rec body emptyOptions True) | None \<Rightarrow> [])"
    by (simp only: fst_cloneSingleNode) simp
  have 6: "\<forall>rec clone. \<exists>definitions.
          fst (ensureSVGSymbols rec env clone options)
            = concat (map (\<lambda>d. fst (rec d options True)) definitions)"
    by (simp only: fst_ensureSVGSymbols) (blast intro: collectDefs_log_exact)
  show ?thesis
    using cloneNode_log_options [of fuel env node options isRoot]
      4 5 6 fst_cloneNode_Suc [of fuel env node options isRoot]
    by (intro conjI) blast+
qed

text \<open>
  C6 as stated fails: called with a filter in its options, \<open>cloneNode\<close> on an iframe
  clones the nested body with the empty options.
\<close>

theorem cloneNode_iframe_body_gets_empty_options:
  "(exampleBody, emptyOptions, True)
     \<in> set (fst (cloneNode (Suc 0) (exampleEnv exampleBody) (exampleIFrame (Body exampleBody))
                    withoutVideos True))
   \<and> emptyOptions \<noteq> withoutVideos"
proof
  have "nestedBody (exampleIFrame (Body exampleBody)) = Some exampleBody"
    by (simp add: nestedBody_def exampleIFrame_def element_def isInstanceOfElement_def)
  then show "(exampleBody, emptyOptions, True)
     \<in> set (fst (cloneNode (Suc 0) (exampleEnv exampleBody) (exampleIFrame (Body exampleBody))
                    withoutVideos True))"
    by (rule cloneNode_calls_body) simp
  show "emptyOptions \<noteq> withoutVideos"
    by (simp add: emptyOptions_def withoutVideos_def)
qed

theorem cloneNode_threads_options_witness:
  "list_all (\<lambda>c. callOptions c = withoutVideos)
     (fst (cloneNode (Suc (Suc 0)) (exampleEnv exampleParent) exampleParent withoutVideos True))
   \<and> length (fst (cloneNode (Suc (Suc 0)) (exampleEnv exampleParent) exampleParent withoutVideos True)) = 4
   \<and> fst (cloneChildren recordingCloner (exampleEnv exampleBody) (exampleIFrame (Body exampleBody))
            (shallowClone (exampleIFrame (Body exampleBody))) withoutVideos)
       = [(exampleVideo, withoutVideos, False)]
   \<and> fst (cloneSingleNode recordingCloner (exampleEnv exampleBody) (exampleIFrame (Body exampleBody))
            withoutVideos)
       = [(exampleBody, emptyOptions, True)]"
proof -
  let ?L = "fst (cloneNode (Suc (Suc 0)) (exampleEnv exampleParent) exampleParent withoutVideos True)"
  let ?F = "exampleIFrame (Body exampleBody)"
  have "list_all (\<lambda>c. nestedBody (callNode c) = None) ?L" by code_simp
  then have "\<forall>c \<in> set ?L. nestedBody (callNode c) = None"
    by (simp only: list_all_iff)
  with cloneNode_threads_options [of "Suc (Suc 0)" "exampleEnv exampleParent" exampleParent withoutVideos True]
  have "\<forall>c \<in> set ?L. callOptions c = withoutVideos" by blast
  then have a: "list_all (\<lambda>c. callOptions c = withoutVideos) ?L"
    by (simp only: list_all_iff)
  have b: "length ?L = 4" by code_simp
  have r: "resolvedChildren ?F = Inr [exampleVideo]" by code_simp
  have v: "\<not> isInstanceOfElement ?F HTMLVideoElement" by code_simp
  have n: "nestedBody ?F = Some exampleBody" by code_simp
  note t = cloneNode_threads_options [of 0 "exampleEnv exampleBody" ?F withoutVideos True]
  from t have "fst (cloneChildren recordingCloner (exampleEnv exampleBody) ?F (shallowClone ?F) withoutVideos)
          = (case resolvedChildren ?F of
               Inl e \<Rightarrow> []
             | Inr children \<Rightarrow>
                 if children = [] \<or> isInstanceOfElement ?F HTMLVideoElement then []
                 else concat (map (\<lambda>child. fst (recordingCloner child withoutVideos False)) children))"
    by blast
  then have c: "fst (cloneChildren recordingCloner (exampleEnv exampleBody) ?F (shallowClone ?F) withoutVideos)
          = [(exampleVideo, withoutVideos, False)]"
    by (simp add: r v recordingCloner_def)
  from t have "fst (cloneSingleNode recordingCloner (exampleEnv exampleBody) ?F withoutVideos)
          = (case nestedBody ?F of
               Some body \<Rightarrow> fst (recordingCloner body emptyOptions True) | None \<Rightarrow> [])"
    by blast
  then have d: "fst (cloneSingleNode recordingCloner (exampleEnv exampleBody) ?F withoutVideos)
          = [(exampleBody, emptyOptions, True)]"
    by (simp add: n recordingCloner_def)
  from a b c d show ?thesis by blast
qed

section \<open>The SVG symbol resolver\<close>

lemma set_firstOccurrences [simp]: "set (firstOccurrences xs) = set xs"
  by (induction xs) auto

lemma distinct_firstOccurrences [simp]: "distinct (firstOccurrences xs)"
  by (induction xs) auto

lemma update_fresh: "k \<notin> fst ` set al \<Longrightarrow> AList.update k v al = al @ [(k, v)]"
  by (induction al) auto

lemma truthyDef_keys:
  "\<forall>(k, v) \<in> set pd. v \<noteq> None \<Longrightarrow> id' \<notin> set objectPrototypeKeys \<Longrightarrow>
     truthyDef pd id' = (id' \<in> fst ` set pd)"
proof -
  assume a: "\<forall>(k, v) \<in> set pd. v \<noteq> None" and b: "id' \<notin> set objectPrototypeKeys"
  show ?thesis
  proof (cases "map_of pd id'")
    case None
    then have "id' \<notin> fst ` set pd" by (simp add: map_of_eq_None_iff)
    with None b show ?thesis by (simp add: truthyDef_def)
  next
    case (Some v)
    then have m: "(id', v) \<in> set pd" by (rule map_of_SomeD)
    with a obtain n where "v = Some n" by (cases v) auto
    with Some m show ?thesis by (force simp add: truthyDef_def)
  qed
qed

lemma neededIds_Cons_None:
  "useReference use = None \<Longrightarrow> neededIds env clone (use # uses) = neededIds env clone uses"
  by (simp add: neededIds_def)

lemma neededIds_Cons_skip:
  "useReference use = Some id' \<Longrightarrow> \<not> needsDefinition env clone id' \<Longrightarrow>
     neededIds env clone (use # uses) = neededIds env clone uses"
  by (simp add: neededIds_def)

lemma neededIds_Cons_need:
  "useReference use = Some id' \<Longrightarrow> needsDefinition env clone id' \<Longrightarrow>
     neededIds env clone (use # uses) = id' # filter (\<lambda>y. y \<noteq> id') (neededIds env clone uses)"
  by (simp add: neededIds_def)

lemma collectDefs_Cons_None:
  "useReference use = None \<Longrightarrow>
     collectDefs rec env clone options (use # uses) pd = collectDefs rec env clone options uses pd"
  by (simp add: useReference_def split: option.splits if_splits)

lemma collectDefs_Cons_skip:
  assumes "useReference use = Some id'" and "validSelector env id'"
    and "\<not> needsDefinition env clone id' \<or> id' \<in> fst ` set pd"
    and "\<forall>(k, v) \<in> set pd. v \<noteq> None"
  shows "collectDefs rec env clone options (use # uses) pd = collectDefs rec env clone options uses pd"
proof -
  from assms(1) have g: "getAttribute use ''xlink:href'' = Some id'" "id' \<noteq> []"
    by (auto simp add: useReference_def split: option.splits if_splits)
  have t: "id' \<in> fst ` set pd \<Longrightarrow> truthyDef pd id'"
  proof -
    assume "id' \<in> fst ` set pd"
    then obtain v where "map_of pd id' = Some v" "(id', v) \<in> set pd"
      by (metis (no_types, opaque_lifting) domD dom_map_of_conv_image_fst map_of_SomeD)
    with assms(4) show ?thesis by (cases v) (auto simp add: truthyDef_def)
  qed
  have u: "id' \<in> set objectPrototypeKeys \<Longrightarrow> truthyDef pd id'"
  proof (cases "map_of pd id'")
    case None
    assume "id' \<in> set objectPrototypeKeys"
    with None show ?thesis by (simp add: truthyDef_def)
  next
    case (Some v)
    then have "(id', v) \<in> set pd" by (rule map_of_SomeD)
    with assms(4) Some show ?thesis by (cases v) (auto simp add: truthyDef_def)
  qed
  from assms(2,3) g t u show ?thesis
    by (auto simp add: andThen_def attempt_def querySelector_def needsDefinition_def definitionOf_def
          split: option.splits)
qed

lemma collectDefs_Cons_need:
  assumes "useReference use = Some id'" and "validSelector env id'"
    and "needsDefinition env clone id'" and "id' \<notin> fst ` set pd"
    and "\<forall>(k, v) \<in> set pd. v \<noteq> None"
  shows "collectDefs rec env clone options (use # uses) pd
           = andThen (rec (the (definitionOf env id')) options True)
               (\<lambda>c. collectDefs rec env clone options uses (pd @ [(id', c)]))"
proof -
  from assms(1) have g: "getAttribute use ''xlink:href'' = Some id'" "id' \<noteq> []"
    by (auto simp add: useReference_def split: option.splits if_splits)
  from assms(3,4,5) have t: "\<not> truthyDef pd id'"
    by (simp add: truthyDef_keys needsDefinition_def)
  from assms(3) obtain d where d: "querySelector env (document env) id' = Inr (Some d)"
      "definitionOf env id' = Some d"
    by (auto simp add: needsDefinition_def definitionOf_def split: sum.splits option.splits)
  from assms(3) have e: "querySelector env clone id' = Inr None"
    by (simp add: needsDefinition_def)
  from g t d e assms(4) show ?thesis
    by (simp add: andThen_def attempt_def update_fresh)
qed

text \<open>
  The loop, when every reference is a valid selector and the clone of every needed
  definition resolves to a node: it clones the needed identifiers that are not yet
  keys, each once, in the order of their first occurrence, by a root call with the
  options of the caller.
\<close>

lemma collectDefs_characterisation:
  assumes "\<forall>use \<in> set uses. \<forall>id'. useReference use = Some id' \<longrightarrow> validSelector env id'"
    and "\<forall>id' \<in> set (neededIds env clone uses). id' \<notin> fst ` set pd \<longrightarrow>
           (\<exists>c. snd (rec (the (definitionOf env id')) options True) = Some (Inr (Some c)))"
    and "\<forall>(k, v) \<in> set pd. v \<noteq> None"
  shows "collectDefs rec env clone options uses pd =
     (concat (map (\<lambda>id'. fst (rec (the (definitionOf env id')) options True))
                (filter (\<lambda>id'. id' \<notin> fst ` set pd) (neededIds env clone uses))),
      Some (Inr (pd @ map (\<lambda>id'. (id', the (resolvedValue (snd (rec (the (definitionOf env id')) options True)))))
                        (filter (\<lambda>id'. id' \<notin> fst ` set pd) (neededIds env clone uses)))))"
  using assms
proof (induction uses arbitrary: pd)
  case Nil
  then show ?case by (simp add: neededIds_def resolve_def)
next
  case (Cons use uses)
  let ?N = "neededIds env clone uses"
  from Cons.prems(1)
  have valid: "\<forall>use \<in> set uses. \<forall>id'. useReference use = Some id' \<longrightarrow> validSelector env id'"
    by simp
  show ?case
  proof (cases "useReference use")
    case None
    then have n: "neededIds env clone (use # uses) = ?N" by (rule neededIds_Cons_None)
    from Cons.prems(2) have "\<forall>id' \<in> set ?N. id' \<notin> fst ` set pd \<longrightarrow>
           (\<exists>c. snd (rec (the (definitionOf env id')) options True) = Some (Inr (Some c)))"
      by (simp only: n)
    from Cons.IH [OF valid this Cons.prems(3)] show ?thesis
      by (simp only: n collectDefs_Cons_None [OF None])
  next
    case (Some id')
    with Cons.prems(1) have v: "validSelector env id'" by simp
    show ?thesis
    proof (cases "needsDefinition env clone id'")
      case False
      from Some False have n: "neededIds env clone (use # uses) = ?N" by (rule neededIds_Cons_skip)
      from False have sk: "\<not> needsDefinition env clone id' \<or> id' \<in> fst ` set pd" by simp
      from Cons.prems(2) have "\<forall>id' \<in> set ?N. id' \<notin> fst ` set pd \<longrightarrow>
             (\<exists>c. snd (rec (the (definitionOf env id')) options True) = Some (Inr (Some c)))"
        by (simp only: n)
      from Cons.IH [OF valid this Cons.prems(3)] show ?thesis
        by (simp only: n collectDefs_Cons_skip [OF Some v sk Cons.prems(3)])
    next
      case True
      from Some True have n: "neededIds env clone (use # uses) = id' # filter (\<lambda>y. y \<noteq> id') ?N"
        by (rule neededIds_Cons_need)
      show ?thesis
      proof (cases "id' \<in> fst ` set pd")
        case True
        then have sk: "\<not> needsDefinition env clone id' \<or> id' \<in> fst ` set pd" by simp
        from True have f: "filter (\<lambda>y. y \<notin> fst ` set pd) (id' # filter (\<lambda>y. y \<noteq> id') ?N)
                       = filter (\<lambda>y. y \<notin> fst ` set pd) ?N"
          by (auto intro: filter_cong)
        from Cons.prems(2) True have "\<forall>y \<in> set ?N. y \<notin> fst ` set pd \<longrightarrow>
             (\<exists>c. snd (rec (the (definitionOf env y)) options True) = Some (Inr (Some c)))"
          by (auto simp add: n)
        from Cons.IH [OF valid this Cons.prems(3)] show ?thesis
          by (simp only: n f collectDefs_Cons_skip [OF Some v sk Cons.prems(3)])
      next
        case False
        from Cons.prems(2) False obtain c
          where c: "snd (rec (the (definitionOf env id')) options True) = Some (Inr (Some c))"
          by (auto simp add: n)
        let ?pd = "pd @ [(id', Some c)]"
        have keys: "fst ` set ?pd = insert id' (fst ` set pd)" by simp
        from Cons.prems(3) have nn: "\<forall>(k, v) \<in> set ?pd. v \<noteq> None" by auto
        from Cons.prems(2) have "\<forall>y \<in> set ?N. y \<notin> fst ` set ?pd \<longrightarrow>
             (\<exists>c. snd (rec (the (definitionOf env y)) options True) = Some (Inr (Some c)))"
          by (auto simp add: n)
        from Cons.IH [OF valid this nn]
        have ih: "collectDefs rec env clone options uses ?pd =
           (concat (map (\<lambda>id'. fst (rec (the (definitionOf env id')) options True))
                      (filter (\<lambda>y. y \<notin> fst ` set ?pd) ?N)),
            Some (Inr (?pd @ map (\<lambda>id'. (id', the (resolvedValue (snd (rec (the (definitionOf env id')) options True)))))
                              (filter (\<lambda>y. y \<notin> fst ` set ?pd) ?N))))" .
        have f1: "filter (\<lambda>y. y \<notin> fst ` set ?pd) ?N
                    = filter (\<lambda>y. y \<notin> fst ` set pd) (filter (\<lambda>y. y \<noteq> id') ?N)"
          by (auto intro: filter_cong)
        from False have f2: "filter (\<lambda>y. y \<notin> fst ` set pd) (id' # filter (\<lambda>y. y \<noteq> id') ?N)
                    = id' # filter (\<lambda>y. y \<notin> fst ` set pd) (filter (\<lambda>y. y \<noteq> id') ?N)"
          by simp
        have "collectDefs rec env clone options (use # uses) pd
           = andThen (rec (the (definitionOf env id')) options True)
               (\<lambda>c. collectDefs rec env clone options uses (pd @ [(id', c)]))"
          by (rule collectDefs_Cons_need [OF Some v True False Cons.prems(3)])
        also have "\<dots> = (fst (rec (the (definitionOf env id')) options True)
                           @ fst (collectDefs rec env clone options uses ?pd),
                         snd (collectDefs rec env clone options uses ?pd))"
          using c by (simp add: andThen_def)
        finally show ?thesis
          using c by (simp only: n f2 ih f1) (simp add: resolvedValue_def)
      qed
    qed
  qed
qed

lemma set_neededIds:
  "set (neededIds env clone uses)
     = {id'. \<exists>use \<in> set uses. useReference use = Some id' \<and> needsDefinition env clone id'}"
  by (force simp add: neededIds_def map_filter_def image_iff)

lemma ensureSVGSymbols_characterisation:
  assumes "\<forall>use \<in> set (useElements env clone). \<forall>id'. useReference use = Some id' \<longrightarrow> validSelector env id'"
    and "\<forall>id' \<in> set (neededIds env clone (useElements env clone)).
           \<exists>c. snd (rec (the (definitionOf env id')) options True) = Some (Inr (Some c))"
  shows "ensureSVGSymbols rec env clone options =
     (concat (map (\<lambda>id'. fst (rec (the (definitionOf env id')) options True))
                (neededIds env clone (useElements env clone))),
      Some (Inr (if neededIds env clone (useElements env clone) = [] then clone
                 else appendChild clone (symbolContainer
                        (map (\<lambda>id'. the (the (resolvedValue (snd (rec (the (definitionOf env id')) options True)))))
                           (neededIds env clone (useElements env clone)))))))"
proof (cases "useElements env clone = []")
  case True
  then show ?thesis by (simp add: ensureSVGSymbols_def neededIds_def resolve_def)
next
  case False
  let ?ids = "neededIds env clone (useElements env clone)"
  let ?v = "\<lambda>id'. the (resolvedValue (snd (rec (the (definitionOf env id')) options True)))"
  from assms(2) have a2: "\<forall>id' \<in> set ?ids. id' \<notin> fst ` set [] \<longrightarrow>
           (\<exists>c. snd (rec (the (definitionOf env id')) options True) = Some (Inr (Some c)))"
    by simp
  have a3: "\<forall>(k, v) \<in> set ([] :: (string \<times> node option) list). v \<noteq> None" by simp
  from collectDefs_characterisation
         [where rec = rec and options = options and pd = "[]", OF assms(1) a2 a3]
  have c: "collectDefs rec env clone options (useElements env clone) [] =
     (concat (map (\<lambda>id'. fst (rec (the (definitionOf env id')) options True)) ?ids),
      Some (Inr (map (\<lambda>id'. (id', ?v id')) ?ids)))"
    by simp
  from assms(2) have nn: "None \<notin> set (map ?v ?ids)"
    by (auto simp add: resolvedValue_def)
  have m: "map snd (map (\<lambda>id'. (id', ?v id')) ?ids) = map ?v ?ids"
    by (simp add: comp_def)
  from False c nn show ?thesis
    by (simp add: ensureSVGSymbols_def andThen_def Let_def m resolve_def reject_def comp_def
          del: set_map)
qed

text \<open>
  C7, as the code has it. Let every reference in the clone be a valid selector and let
  the clone of every needed definition resolve. The needed identifiers are the
  references found in the clone that have no match in the clone, resolve to a definition
  in the live document and are no property names of \<^verbatim>\<open>Object.prototype\<close>. The
  resolver clones the definition of each of them by a root call of \<open>cloneNode\<close> with
  the options of the caller, so the exclusion test is off for the definition itself;
  each distinct identifier is cloned once, in the order of first occurrence; the clones
  are what the appended container holds.
\<close>

theorem ensureSVGSymbols_clones_as_root:
  assumes "\<forall>use \<in> set (useElements env clone). \<forall>id'. useReference use = Some id' \<longrightarrow> validSelector env id'"
    and "\<forall>id' \<in> set (neededIds env clone (useElements env clone)).
           \<exists>v. snd (cloneNode fuel env (the (definitionOf env id')) options True) = Some (Inr v)"
  shows "set (neededIds env clone (useElements env clone))
           = {id'. \<exists>use \<in> set (useElements env clone).
                     useReference use = Some id' \<and> needsDefinition env clone id'}
     \<and> distinct (neededIds env clone (useElements env clone))
     \<and> (\<forall>id' \<in> set (neededIds env clone (useElements env clone)).
           \<not> excluded (the (definitionOf env id')) options True)
     \<and> ensureSVGSymbols (cloneNode fuel env) env clone options =
         (concat (map (\<lambda>id'. fst (cloneNode fuel env (the (definitionOf env id')) options True))
                    (neededIds env clone (useElements env clone))),
          Some (Inr (if neededIds env clone (useElements env clone) = [] then clone
                     else appendChild clone (symbolContainer
                            (map (\<lambda>id'. the (the (resolvedValue
                                    (snd (cloneNode fuel env (the (definitionOf env id')) options True)))))
                               (neededIds env clone (useElements env clone)))))))"
proof (intro conjI)
  show "set (neededIds env clone (useElements env clone))
           = {id'. \<exists>use \<in> set (useElements env clone).
                     useReference use = Some id' \<and> needsDefinition env clone id'}"
    by (rule set_neededIds)
  show "distinct (neededIds env clone (useElements env clone))"
    by (simp add: neededIds_def)
  show "\<forall>id' \<in> set (neededIds env clone (useElements env clone)).
           \<not> excluded (the (definitionOf env id')) options True"
    by simp
  have "\<forall>id' \<in> set (neededIds env clone (useElements env clone)).
           \<exists>c. snd (cloneNode fuel env (the (definitionOf env id')) options True) = Some (Inr (Some c))"
  proof
    fix id' assume "id' \<in> set (neededIds env clone (useElements env clone))"
    with assms(2) obtain v
      where v: "snd (cloneNode fuel env (the (definitionOf env id')) options True) = Some (Inr v)"
      by blast
    with cloneNode_root_not_null [of fuel env "the (definitionOf env id')" options]
    obtain c where "v = Some c" by (cases v) auto
    with v show "\<exists>c. snd (cloneNode fuel env (the (definitionOf env id')) options True) = Some (Inr (Some c))"
      by blast
  qed
  from ensureSVGSymbols_characterisation
         [where rec = "cloneNode fuel env" and options = options, OF assms(1) this]
  show "ensureSVGSymbols (cloneNode fuel env) env clone options =
         (concat (map (\<lambda>id'. fst (cloneNode fuel env (the (definitionOf env id')) options True))
                    (neededIds env clone (useElements env clone))),
          Some (Inr (if neededIds env clone (useElements env clone) = [] then clone
                     else appendChild clone (symbolContainer
                            (map (\<lambda>id'. the (the (resolvedValue
                                    (snd (cloneNode fuel env (the (definitionOf env id')) options True)))))
                               (neededIds env clone (useElements env clone)))))))" .
qed

text \<open>
  C7 as stated fails: the definition is cloned by a root call. With a filter that
  rejects the definition, the resolver still clones it and appends the clone.
\<close>

theorem ensureSVGSymbols_ignores_filter_on_definition:
  "excluded exampleSymbol withoutSymbols False
   \<and> callTargets (fst (ensureSVGSymbols (cloneNode 1 (exampleEnv exampleSymbolDocument))
                          (exampleEnv exampleSymbolDocument) exampleIcon withoutSymbols))
       = [(exampleSymbol, True)]
   \<and> snd (ensureSVGSymbols (cloneNode 1 (exampleEnv exampleSymbolDocument))
            (exampleEnv exampleSymbolDocument) exampleIcon withoutSymbols)
       = Some (Inr (appendChild exampleIcon (symbolContainer [exampleSymbol])))"
  by code_simp

theorem ensureSVGSymbols_clones_as_root_witness:
  "neededIds (exampleEnv exampleSymbolDocument) exampleIcon
       (useElements (exampleEnv exampleSymbolDocument) exampleIcon) = [''#icon'']
   \<and> definitionOf (exampleEnv exampleSymbolDocument) ''#icon'' = Some exampleSymbol
   \<and> ensureSVGSymbols (cloneNode (Suc 0) (exampleEnv exampleSymbolDocument))
         (exampleEnv exampleSymbolDocument) exampleIcon withoutSymbols
       = (fst (cloneNode (Suc 0) (exampleEnv exampleSymbolDocument) exampleSymbol withoutSymbols True),
          Some (Inr (appendChild exampleIcon (symbolContainer
            [the (the (resolvedValue (snd (cloneNode (Suc 0) (exampleEnv exampleSymbolDocument)
                                             exampleSymbol withoutSymbols True))))]))))"
proof -
  let ?E = "exampleEnv exampleSymbolDocument"
  have u: "useElements ?E exampleIcon = [exampleUse]" by code_simp
  have r: "useReference exampleUse = Some ''#icon''" by code_simp
  have v: "validSelector ?E ''#icon''" by code_simp
  have n: "neededIds ?E exampleIcon (useElements ?E exampleIcon) = [''#icon'']" by code_simp
  have d: "definitionOf ?E ''#icon'' = Some exampleSymbol" by code_simp
  have s: "resolvedValue (snd (cloneNode (Suc 0) ?E exampleSymbol withoutSymbols True)) \<noteq> None"
    by code_simp
  have a: "\<forall>use \<in> set (useElements ?E exampleIcon). \<forall>id'. useReference use = Some id' \<longrightarrow> validSelector ?E id'"
    using r v by (simp add: u)
  have b: "\<forall>id' \<in> set (neededIds ?E exampleIcon (useElements ?E exampleIcon)).
           \<exists>v. snd (cloneNode (Suc 0) ?E (the (definitionOf ?E id')) withoutSymbols True) = Some (Inr v)"
    using s [unfolded resolvedValue_iff] by (simp add: n d del: cloneNode.simps)
  from ensureSVGSymbols_clones_as_root
         [where env = "?E" and clone = exampleIcon and fuel = "Suc 0" and options = withoutSymbols,
          OF a b] n d
  show ?thesis by (simp del: cloneNode.simps)
qed

text \<open>What holds of every entry that the loop adds holds of all its entries.\<close>

lemma andThen_resolvedE:
  assumes "andThen p f = (calls, Some (Inr r))"
  obtains v where "snd p = Some (Inr v)" and "snd (f v) = Some (Inr r)" and "calls = fst p @ fst (f v)"
  using assms by (auto simp add: andThen_def split: option.splits sum.splits)

lemma set_alist_update: "set (AList.update k v al) \<subseteq> insert (k, v) (set al)"
  by (induction al) auto

lemma collectDefs_invariant:
  assumes "collectDefs rec env clone options uses pd0 = (calls, Some (Inr pd))"
    and "\<forall>kv \<in> set pd0. Q kv"
    and "\<And>id' d c. querySelector env clone id' = Inr None \<Longrightarrow>
            querySelector env (document env) id' = Inr (Some d) \<Longrightarrow>
            snd (rec d options True) = Some (Inr c) \<Longrightarrow> Q (id', c)"
  shows "\<forall>kv \<in> set pd. Q kv"
  using assms(1,2)
proof (induction uses arbitrary: pd0 calls)
  case Nil
  then show ?case by (simp add: resolve_def)
next
  case (Cons use uses)
  show ?case
  proof (cases "useReference use")
    case None
    with Cons.prems(1) have "collectDefs rec env clone options uses pd0 = (calls, Some (Inr pd))"
      by (simp only: collectDefs_Cons_None)
    from Cons.IH [OF this Cons.prems(2)] show ?thesis .
  next
    case (Some id')
    then have g: "getAttribute use ''xlink:href'' = Some id'" "id' \<noteq> []"
      by (auto simp add: useReference_def split: option.splits if_splits)
    let ?rest = "collectDefs rec env clone options uses"
    from Cons.prems(1) g
    have eq: "andThen (attempt (querySelector env clone id')) (\<lambda>exist.
            andThen (attempt (querySelector env (document env) id')) (\<lambda>definition'.
              case definition' of
                Some d \<Rightarrow>
                  if exist = None \<and> \<not> truthyDef pd0 id' then
                    andThen (rec d options True) (\<lambda>c. ?rest (AList.update id' c pd0))
                  else ?rest pd0
              | None \<Rightarrow> ?rest pd0)) = (calls, Some (Inr pd))"
      by simp
    from eq obtain exist where ex: "querySelector env clone id' = Inr exist"
      and eq2: "snd (andThen (attempt (querySelector env (document env) id')) (\<lambda>definition'.
              case definition' of
                Some d \<Rightarrow>
                  if exist = None \<and> \<not> truthyDef pd0 id' then
                    andThen (rec d options True) (\<lambda>c. ?rest (AList.update id' c pd0))
                  else ?rest pd0
              | None \<Rightarrow> ?rest pd0)) = Some (Inr pd)"
      by (rule andThen_resolvedE) (simp add: attempt_def)
    from eq2 obtain definition' where de: "querySelector env (document env) id' = Inr definition'"
      and eq3: "snd (case definition' of
                Some d \<Rightarrow>
                  if exist = None \<and> \<not> truthyDef pd0 id' then
                    andThen (rec d options True) (\<lambda>c. ?rest (AList.update id' c pd0))
                  else ?rest pd0
              | None \<Rightarrow> ?rest pd0) = Some (Inr pd)"
      by (auto simp add: andThen_def attempt_def split: option.splits sum.splits)
    show ?thesis
    proof (cases "\<exists>d. definition' = Some d \<and> exist = None \<and> \<not> truthyDef pd0 id'")
      case False
      with eq3 have "snd (?rest pd0) = Some (Inr pd)" by (auto split: option.splits if_splits)
      then have "?rest pd0 = (fst (?rest pd0), Some (Inr pd))" by (metis prod.collapse)
      from Cons.IH [OF this Cons.prems(2)] show ?thesis .
    next
      case True
      then obtain d where d: "definition' = Some d" "exist = None" "\<not> truthyDef pd0 id'" by blast
      with eq3 have "snd (andThen (rec d options True) (\<lambda>c. ?rest (AList.update id' c pd0))) = Some (Inr pd)"
        by simp
      then obtain c where c: "snd (rec d options True) = Some (Inr c)"
        and r: "snd (?rest (AList.update id' c pd0)) = Some (Inr pd)"
        by (auto simp add: andThen_def split: option.splits sum.splits)
      from ex de d c have "Q (id', c)" by (intro assms(3)) auto
      with Cons.prems(2) have inv: "\<forall>kv \<in> set (AList.update id' c pd0). Q kv"
        using set_alist_update [of id' c pd0] by auto
      from r have "?rest (AList.update id' c pd0) = (fst (?rest (AList.update id' c pd0)), Some (Inr pd))"
        by (metis prod.collapse)
      from Cons.IH [OF this inv] show ?thesis .
    qed
  qed
qed

lemma collectDefs_all_present:
  assumes "\<forall>use \<in> set uses. \<forall>id'. useReference use = Some id' \<longrightarrow>
             (\<exists>x. querySelector env clone id' = Inr (Some x))"
  shows "collectDefs rec env clone options uses pd = ([], Some (Inr pd))"
  using assms
proof (induction uses)
  case Nil
  then show ?case by (simp add: resolve_def)
next
  case (Cons use uses)
  then have ih: "collectDefs rec env clone options uses pd = ([], Some (Inr pd))" by simp
  show ?case
  proof (cases "useReference use")
    case None
    with ih show ?thesis by (simp only: collectDefs_Cons_None)
  next
    case (Some id')
    then have g: "getAttribute use ''xlink:href'' = Some id'" "id' \<noteq> []"
      by (auto simp add: useReference_def split: option.splits if_splits)
    from Some Cons.prems obtain x where x: "querySelector env clone id' = Inr (Some x)" by auto
    then have "validSelector env id'" by (auto simp add: querySelector_def split: if_splits)
    then obtain definition' where "querySelector env (document env) id' = Inr definition'"
      by (simp add: querySelector_def)
    with g x ih show ?thesis
      by (simp add: andThen_def attempt_def split: option.splits)
  qed
qed

text \<open>
  C8. On a clone in which every reference of a \<^verbatim>\<open>use\<close> element already has a
  matching element, the resolver starts no clone and returns the clone as it is: nothing
  is appended. On any clone, no identifier that has a match in the clone is among the
  collected definitions.
\<close>

theorem ensureSVGSymbols_idempotent_on_present:
  "((\<forall>use \<in> set (useElements env clone). \<forall>id'. useReference use = Some id' \<longrightarrow>
        (\<exists>x. querySelector env clone id' = Inr (Some x))) \<longrightarrow>
      ensureSVGSymbols rec env clone options = ([], Some (Inr clone)))
   \<and> (collectDefs rec env clone options (useElements env clone) [] = (calls, Some (Inr processedDefs)) \<longrightarrow>
        (\<forall>(id', c) \<in> set processedDefs. querySelector env clone id' = Inr None))"
proof (intro conjI impI)
  assume "\<forall>use \<in> set (useElements env clone). \<forall>id'. useReference use = Some id' \<longrightarrow>
        (\<exists>x. querySelector env clone id' = Inr (Some x))"
  from collectDefs_all_present [OF this, of rec options "[]"]
  show "ensureSVGSymbols rec env clone options = ([], Some (Inr clone))"
    by (simp add: ensureSVGSymbols_def Let_def andThen_def resolve_def)
next
  assume a: "collectDefs rec env clone options (useElements env clone) [] = (calls, Some (Inr processedDefs))"
  have "\<forall>kv \<in> set processedDefs. querySelector env clone (fst kv) = Inr None"
    by (rule collectDefs_invariant [OF a]) simp_all
  then show "\<forall>(id', c) \<in> set processedDefs. querySelector env clone id' = Inr None"
    by auto
qed

theorem ensureSVGSymbols_idempotent_on_present_witness:
  "ensureSVGSymbols (cloneNode (Suc 0) (exampleEnv exampleSymbolDocument))
       (exampleEnv exampleSymbolDocument) exampleResolved emptyOptions
     = ([], Some (Inr exampleResolved))
   \<and> snd (collectDefs (cloneNode (Suc 0) (exampleEnv exampleSymbolDocument))
            (exampleEnv exampleSymbolDocument) exampleIcon emptyOptions
            (useElements (exampleEnv exampleSymbolDocument) exampleIcon) [])
       = Some (Inr [(''#icon'', Some exampleSymbol)])
   \<and> querySelector (exampleEnv exampleSymbolDocument) exampleIcon ''#icon'' = Inr None"
proof -
  let ?E = "exampleEnv exampleSymbolDocument"
  let ?rec = "cloneNode (Suc 0) ?E"
  have u: "useElements ?E exampleResolved = [exampleUse]" by code_simp
  have r: "useReference exampleUse = Some ''#icon''" by code_simp
  have q: "querySelector ?E exampleResolved ''#icon'' = Inr (Some exampleSymbol)" by code_simp
  have a: "\<forall>use \<in> set (useElements ?E exampleResolved). \<forall>id'. useReference use = Some id' \<longrightarrow>
        (\<exists>x. querySelector ?E exampleResolved id' = Inr (Some x))"
    using r q by (simp add: u)
  have c: "snd (collectDefs ?rec ?E exampleIcon emptyOptions (useElements ?E exampleIcon) [])
             = Some (Inr [(''#icon'', Some exampleSymbol)])"
    by code_simp
  then have b: "collectDefs ?rec ?E exampleIcon emptyOptions (useElements ?E exampleIcon) []
             = (fst (collectDefs ?rec ?E exampleIcon emptyOptions (useElements ?E exampleIcon) []),
                Some (Inr [(''#icon'', Some exampleSymbol)]))"
    by (simp add: prod_eq_iff del: cloneNode.simps)
  from ensureSVGSymbols_idempotent_on_present
         [where env = "?E" and clone = exampleResolved and rec = "?rec"
            and options = emptyOptions and calls = "[]" and processedDefs = "[]"] a
  have "ensureSVGSymbols ?rec ?E exampleResolved emptyOptions = ([], Some (Inr exampleResolved))"
    by blast
  moreover from ensureSVGSymbols_idempotent_on_present
         [where env = "?E" and clone = exampleIcon and rec = "?rec" and options = emptyOptions
            and calls = "fst (collectDefs ?rec ?E exampleIcon emptyOptions (useElements ?E exampleIcon) [])"
            and processedDefs = "[(''#icon'', Some exampleSymbol)]"] b
  have "querySelector ?E exampleIcon ''#icon'' = Inr None"
    by simp
  ultimately show ?thesis using c by blast
qed

lemma foldl_appendChild:
  "foldl appendChild node nodes = setChildNodes node (childNodes node @ nodes)"
proof (induction nodes arbitrary: node)
  case Nil
  show ?case by (cases node) (simp add: setChildNodes_def)
next
  case (Cons n ns)
  show ?case by (simp add: Cons.IH) (simp add: appendChild_def setChildNodes_def)
qed

lemma symbolContainer_eq:
  "symbolContainer nodes =
     Node \<lparr>nodeClass = Element, tagName = Some ''svg'',
           namespaceURI = ''http://www.w3.org/1999/xhtml'',
           attributes = [(''xmlns'', ''http://www.w3.org/1999/xhtml'')],
           style = Some [(''position'', ''absolute'', []), (''width'', ''0'', []), (''height'', ''0'', []),
                         (''overflow'', ''hidden'', []), (''display'', ''none'', [])],
           nodeValue = [], currentValue = [], toDataURL = Inr [],
           currentSrc = [], poster = [], clientWidth = 0, clientHeight = 0\<rparr>
       [Node \<lparr>nodeClass = Element, tagName = Some ''defs'',
               namespaceURI = ''http://www.w3.org/1999/xhtml'', attributes = [],
               style = Some [], nodeValue = [], currentValue = [], toDataURL = Inr [],
               currentSrc = [], poster = [], clientWidth = 0, clientHeight = 0\<rparr>
          nodes None None NoDocument]
       None None NoDocument"
  by (simp add: symbolContainer_def symbolNamespace_def Let_def foldl_appendChild createElementNS_def
        setAttribute_def assignStyle_def setStyle_def setProperty_def appendChild_def setChildNodes_def)

text \<open>
  C10. When the loop of the resolver has collected at least one definition, the resolver
  appends one container as the last child of the clone: an element named
  \<^verbatim>\<open>svg\<close> in the namespace \<^verbatim>\<open>http://www.w3.org/1999/xhtml\<close>, which is not the SVG
  namespace, with the inline style position absolute, width 0, height 0, overflow
  hidden, display none, whose only child is an element named \<^verbatim>\<open>defs\<close> in the same
  namespace that holds the collected definitions.
\<close>

theorem ensureSVGSymbols_container:
  assumes "collectDefs (cloneNode fuel env) env clone options (useElements env clone) [] =
             (calls, Some (Inr processedDefs))"
    and "processedDefs \<noteq> []"
  shows "\<exists>nodes svg defs.
           map snd processedDefs = map Some nodes
         \<and> snd (ensureSVGSymbols (cloneNode fuel env) env clone options) = Some (Inr (appendChild clone svg))
         \<and> childNodes (appendChild clone svg) = childNodes clone @ [svg]
         \<and> svg = symbolContainer nodes
         \<and> tagName (props svg) = Some ''svg''
         \<and> namespaceURI (props svg) = ''http://www.w3.org/1999/xhtml''
         \<and> namespaceURI (props svg) \<noteq> ''http://www.w3.org/2000/svg''
         \<and> attributes (props svg) = [(''xmlns'', ''http://www.w3.org/1999/xhtml'')]
         \<and> style (props svg) =
               Some [(''position'', ''absolute'', []), (''width'', ''0'', []), (''height'', ''0'', []),
                     (''overflow'', ''hidden'', []), (''display'', ''none'', [])]
         \<and> childNodes svg = [defs]
         \<and> tagName (props defs) = Some ''defs''
         \<and> namespaceURI (props defs) = ''http://www.w3.org/1999/xhtml''
         \<and> childNodes defs = nodes"
proof -
  have "\<forall>kv \<in> set processedDefs. snd kv \<noteq> None"
  proof (rule collectDefs_invariant [OF assms(1)])
    show "\<forall>kv \<in> set []. snd kv \<noteq> None" by simp
  next
    fix id' :: string and d c
    assume "snd (cloneNode fuel env d options True) = Some (Inr c)"
    with cloneNode_root_not_null [of fuel env d options] show "snd (id', c) \<noteq> None" by auto
  qed
  then have m: "map snd processedDefs = map Some (map the (map snd processedDefs))"
    by (induction processedDefs) auto
  then have nn: "None \<notin> set (map snd processedDefs)"
    by (metis (no_types, lifting) ex_map_conv option.distinct(1))
  from assms have ne: "useElements env clone \<noteq> []"
    by (auto simp add: resolve_def)
  let ?nodes = "map the (map snd processedDefs)"
  from assms(1) have c: "snd (collectDefs (cloneNode fuel env) env clone options (useElements env clone) [])
                           = Some (Inr processedDefs)" by simp
  from ne c nn assms(2)
  have r: "snd (ensureSVGSymbols (cloneNode fuel env) env clone options)
         = Some (Inr (appendChild clone (symbolContainer ?nodes)))"
    by (simp add: ensureSVGSymbols_def Let_def andThen_def resolve_def del: set_map)
  show ?thesis
    apply (rule exI [of _ ?nodes])
    apply (rule exI [of _ "symbolContainer ?nodes"])
    apply (rule exI [of _ "hd (childNodes (symbolContainer ?nodes))"])
    using m r by (simp add: symbolContainer_eq appendChild_def setChildNodes_def)
qed

theorem ensureSVGSymbols_container_witness:
  "\<exists>svg defs.
       snd (ensureSVGSymbols (cloneNode (Suc 0) (exampleEnv exampleSymbolDocument))
              (exampleEnv exampleSymbolDocument) exampleIcon emptyOptions)
         = Some (Inr (appendChild exampleIcon svg))
     \<and> namespaceURI (props svg) = ''http://www.w3.org/1999/xhtml''
     \<and> childNodes svg = [defs]
     \<and> namespaceURI (props defs) = ''http://www.w3.org/1999/xhtml''
     \<and> childNodes defs = [exampleSymbol]"
proof -
  let ?E = "exampleEnv exampleSymbolDocument"
  let ?rec = "cloneNode (Suc 0) ?E"
  have "snd (collectDefs ?rec ?E exampleIcon emptyOptions (useElements ?E exampleIcon) [])
             = Some (Inr [(''#icon'', Some exampleSymbol)])"
    by code_simp
  then have b: "collectDefs ?rec ?E exampleIcon emptyOptions (useElements ?E exampleIcon) []
             = (fst (collectDefs ?rec ?E exampleIcon emptyOptions (useElements ?E exampleIcon) []),
                Some (Inr [(''#icon'', Some exampleSymbol)]))"
    by (simp add: prod_eq_iff del: cloneNode.simps)
  have n: "[(''#icon'', Some exampleSymbol)] \<noteq> []" by simp
  from ensureSVGSymbols_container [OF b n] obtain nodes svg defs where
      "map snd [(''#icon'', Some exampleSymbol)] = map Some nodes"
      "snd (ensureSVGSymbols ?rec ?E exampleIcon emptyOptions) = Some (Inr (appendChild exampleIcon svg))"
      "namespaceURI (props svg) = ''http://www.w3.org/1999/xhtml''"
      "childNodes svg = [defs]"
      "namespaceURI (props defs) = ''http://www.w3.org/1999/xhtml''"
      "childNodes defs = nodes"
    by blast
  moreover from this(1) have "nodes = [exampleSymbol]" by auto
  ultimately show ?thesis by blast
qed

section \<open>The value of a select element\<close>

lemma updateFirst_nth:
  "i < length xs \<Longrightarrow> P (xs ! i) \<Longrightarrow> (\<forall>j<i. \<not> P (xs ! j)) \<Longrightarrow>
     updateFirst P f xs = xs[i := f (xs ! i)]"
proof (induction xs arbitrary: i)
  case Nil
  then show ?case by simp
next
  case (Cons x xs)
  show ?case
  proof (cases i)
    case 0
    with Cons.prems show ?thesis by simp
  next
    case (Suc k)
    with Cons.prems have "\<not> P x" by auto
    moreover from Suc Cons.prems have "updateFirst P f xs = xs[k := f (xs ! k)]"
      by (intro Cons.IH) auto
    ultimately show ?thesis using Suc by simp
  qed
qed

lemma getAttribute_setAttribute:
  "getAttribute (setAttribute node name v) name' = (if name' = name then Some v else getAttribute node name')"
  by (simp add: getAttribute_def setAttribute_def update_conv')

text \<open>
  C9, as the code has it. For a source select element, the transfer gives the attribute
  \<^verbatim>\<open>selected\<close> to the first child of the clone that is an element whose
  \<^verbatim>\<open>value\<close> attribute is the current value of the source, and changes nothing
  else: every other child is what the raw clone had, with the markers it had. Without a
  matching child the clone is unchanged.
\<close>

theorem cloneSelectValue_marks_first_match:
  assumes "isInstanceOfElement nativeNode HTMLSelectElement"
  shows "(find (isSelectedOption nativeNode) (childNodes clonedNode) = None \<longrightarrow>
            cloneSelectValue nativeNode clonedNode = clonedNode)
       \<and> (\<forall>i. i < length (childNodes clonedNode)
              \<and> isSelectedOption nativeNode (childNodes clonedNode ! i)
              \<and> (\<forall>j<i. \<not> isSelectedOption nativeNode (childNodes clonedNode ! j)) \<longrightarrow>
            childNodes (cloneSelectValue nativeNode clonedNode)
              = (childNodes clonedNode)[i := setAttribute (childNodes clonedNode ! i) ''selected'' []]
            \<and> getAttribute (childNodes (cloneSelectValue nativeNode clonedNode) ! i) ''selected'' = Some []
            \<and> getAttribute (childNodes (cloneSelectValue nativeNode clonedNode) ! i) ''value''
                = Some (currentValue (props nativeNode))
            \<and> (\<forall>k. k \<noteq> i \<longrightarrow>
                  childNodes (cloneSelectValue nativeNode clonedNode) ! k = childNodes clonedNode ! k))
       \<and> props (cloneSelectValue nativeNode clonedNode) = props clonedNode
       \<and> length (childNodes (cloneSelectValue nativeNode clonedNode)) = length (childNodes clonedNode)"
proof (intro conjI allI impI)
  assume "find (isSelectedOption nativeNode) (childNodes clonedNode) = None"
  then show "cloneSelectValue nativeNode clonedNode = clonedNode"
    by (simp add: cloneSelectValue_def)
next
  fix i
  assume h: "i < length (childNodes clonedNode)
              \<and> isSelectedOption nativeNode (childNodes clonedNode ! i)
              \<and> (\<forall>j<i. \<not> isSelectedOption nativeNode (childNodes clonedNode ! j))"
  then have found: "find (isSelectedOption nativeNode) (childNodes clonedNode) \<noteq> None"
    by (auto simp add: find_None_iff intro: nth_mem)
  from h have upd: "updateFirst (isSelectedOption nativeNode) (\<lambda>c. setAttribute c ''selected'' [])
                 (childNodes clonedNode)
             = (childNodes clonedNode)[i := setAttribute (childNodes clonedNode ! i) ''selected'' []]"
    by (intro updateFirst_nth) auto
  from assms found upd
  show eq: "childNodes (cloneSelectValue nativeNode clonedNode)
              = (childNodes clonedNode)[i := setAttribute (childNodes clonedNode ! i) ''selected'' []]"
    by (auto simp add: cloneSelectValue_def setChildNodes_def)
  from h show "getAttribute (childNodes (cloneSelectValue nativeNode clonedNode) ! i) ''selected'' = Some []"
    by (simp add: eq getAttribute_setAttribute)
  from h show "getAttribute (childNodes (cloneSelectValue nativeNode clonedNode) ! i) ''value''
                = Some (currentValue (props nativeNode))"
    by (simp add: eq getAttribute_setAttribute isSelectedOption_def)
  fix k
  assume "k \<noteq> i"
  then show "childNodes (cloneSelectValue nativeNode clonedNode) ! k = childNodes clonedNode ! k"
    by (simp add: eq)
next
  show "props (cloneSelectValue nativeNode clonedNode) = props clonedNode"
    by (simp add: cloneSelectValue_def setChildNodes_def split: option.splits)
next
  show "length (childNodes (cloneSelectValue nativeNode clonedNode)) = length (childNodes clonedNode)"
  proof (cases "find (isSelectedOption nativeNode) (childNodes clonedNode)")
    case None
    then show ?thesis by (simp add: cloneSelectValue_def)
  next
    case (Some c)
    then obtain i where "i < length (childNodes clonedNode)"
        "isSelectedOption nativeNode (childNodes clonedNode ! i)"
        "\<forall>j<i. \<not> isSelectedOption nativeNode (childNodes clonedNode ! j)"
      by (auto simp add: find_Some_iff)
    then have "updateFirst (isSelectedOption nativeNode) (\<lambda>c. setAttribute c ''selected'' [])
                 (childNodes clonedNode)
             = (childNodes clonedNode)[i := setAttribute (childNodes clonedNode ! i) ''selected'' []]"
      by (intro updateFirst_nth) auto
    with Some show ?thesis by (simp add: cloneSelectValue_def setChildNodes_def)
  qed
qed

text \<open>
  C9 as stated fails where the raw clone of another option already carries
  \<^verbatim>\<open>selected\<close>: source value \<^verbatim>\<open>b\<close>, options a, b, c, the first marked in the
  markup. After the transfer a and b both carry the marker.
\<close>

theorem cloneSelectValue_keeps_other_markers:
  "currentValue (props exampleSelect) = ''b''
   \<and> optionValues exampleClonedSelect = [Some ''a'', Some ''b'', Some ''c'']
   \<and> selectedMarkers (cloneSelectValue exampleSelect exampleClonedSelect) = [Some [], Some [], None]"
  by code_simp

theorem cloneSelectValue_marks_first_match_witness:
  "childNodes (cloneSelectValue exampleSelect exampleClonedSelect)
     = (childNodes exampleClonedSelect)[1 := setAttribute (childNodes exampleClonedSelect ! 1) ''selected'' []]
   \<and> getAttribute (childNodes (cloneSelectValue exampleSelect exampleClonedSelect) ! 1) ''selected'' = Some []
   \<and> childNodes (cloneSelectValue exampleSelect exampleClonedSelect) ! 0 = childNodes exampleClonedSelect ! 0"
proof -
  have a: "isInstanceOfElement exampleSelect HTMLSelectElement"
    by (simp add: exampleSelect_def element_def isInstanceOfElement_def)
  have b: "1 < length (childNodes exampleClonedSelect)
              \<and> isSelectedOption exampleSelect (childNodes exampleClonedSelect ! 1)
              \<and> (\<forall>j<1. \<not> isSelectedOption exampleSelect (childNodes exampleClonedSelect ! j))"
    by (simp add: exampleSelect_def exampleClonedSelect_def element_def isSelectedOption_def
          getAttribute_def isInstanceOfElement_def)
  from cloneSelectValue_marks_first_match [OF a, of exampleClonedSelect] b
  show ?thesis by (metis zero_neq_one)
qed

end
